theory Spec2Isabelle
  imports Main "HOL-Library.Sublist"
begin

section \<open>Values\<close>

text \<open>
  A JavaScript string is represented by the bytes of its UTF-8 encoding, as an Isabelle
  \<open>string\<close>. All syntax the program looks at (braces, \<open>&\<close>, \<open>=\<close>, \<open>%\<close>,
  \<open>+\<close>, \<open>/\<close>, digits) is ASCII, and searching a well-formed string for a
  literal substring gives the same matches on bytes as on UTF-16 code units.

  A completion is how a call ends: it returns, it throws, or it leaves the fragment of
  JavaScript that this development gives a meaning to (\<open>Unmodelled\<close>; the only
  such place is a regular expression built from a parameter name that contains
  regular-expression syntax).
\<close>

datatype error = TypeError | SyntaxError | Error | SecurityError

datatype 'a completion = Normal 'a | Throw error | Unmodelled

section \<open>URLSearchParams\<close>

text \<open>
  \<open>new URLSearchParams(queryString)\<close> drops one leading \<open>?\<close>, splits at
  \<open>&\<close>, skips empty pieces, splits each piece at its first \<open>=\<close>, turns
  \<open>+\<close> into a space, percent-decodes name and value and decodes the bytes as
  UTF-8, putting U+FFFD in the place of every ill-formed sequence.
\<close>

fun split_on :: "char \<Rightarrow> string \<Rightarrow> string list" where
  "split_on d [] = [[]]"
| "split_on d (c # cs) =
     (if c = d then [] # split_on d cs
      else (case split_on d cs of [] \<Rightarrow> [[c]] | p # ps \<Rightarrow> (c # p) # ps))"

definition plus_to_space :: "string \<Rightarrow> string" where
  "plus_to_space s = map (\<lambda>c. if c = CHR ''+'' then CHR '' '' else c) s"

definition is_hex_digit :: "char \<Rightarrow> bool" where
  "is_hex_digit c = (c \<in> set ''0123456789abcdefABCDEF'')"

definition hex_value :: "char \<Rightarrow> nat" where
  "hex_value c =
     (let n = of_char c in
      if 48 \<le> n \<and> n \<le> 57 then n - 48
      else if 97 \<le> n \<and> n \<le> 102 then n - 87
      else n - 55)"

fun percent_decode :: "string \<Rightarrow> string" where
  "percent_decode (c # h1 # h2 # cs) =
     (if c = CHR ''%'' \<and> is_hex_digit h1 \<and> is_hex_digit h2
      then char_of (hex_value h1 * 16 + hex_value h2) # percent_decode cs
      else c # percent_decode (h1 # h2 # cs))"
| "percent_decode cs = cs"

definition replacement_character :: string where
  "replacement_character = [CHR 0xEF, CHR 0xBF, CHR 0xBD]"

type_synonym utf8_state = "nat \<times> nat \<times> nat \<times> string"

definition utf8_idle :: utf8_state where
  "utf8_idle = (0, 0x80, 0xBF, [])"

definition utf8_lead :: "char \<Rightarrow> string \<times> utf8_state" where
  "utf8_lead b =
     (let n = (of_char b :: nat) in
      if n \<le> 0x7F then ([b], utf8_idle)
      else if 0xC2 \<le> n \<and> n \<le> 0xDF then ([], (1, 0x80, 0xBF, [b]))
      else if 0xE0 \<le> n \<and> n \<le> 0xEF
        then ([], (2, if n = 0xE0 then 0xA0 else 0x80, if n = 0xED then 0x9F else 0xBF, [b]))
      else if 0xF0 \<le> n \<and> n \<le> 0xF4
        then ([], (3, if n = 0xF0 then 0x90 else 0x80, if n = 0xF4 then 0x8F else 0xBF, [b]))
      else (replacement_character, utf8_idle))"

fun utf8_decode :: "utf8_state \<Rightarrow> string \<Rightarrow> string" where
  "utf8_decode (n, lo, hi, pending) [] = (if n = 0 then [] else replacement_character)"
| "utf8_decode (n, lo, hi, pending) (b # bs) =
     (if n = 0 then fst (utf8_lead b) @ utf8_decode (snd (utf8_lead b)) bs
      else if lo \<le> of_char b \<and> of_char b \<le> hi then
        (if n = 1 then pending @ [b] @ utf8_decode utf8_idle bs
         else utf8_decode (n - 1, 0x80, 0xBF, pending @ [b]) bs)
      else replacement_character @ fst (utf8_lead b) @ utf8_decode (snd (utf8_lead b)) bs)"

definition decode_component :: "string \<Rightarrow> string" where
  "decode_component s = utf8_decode utf8_idle (percent_decode (plus_to_space s))"

definition parse_pair :: "string \<Rightarrow> string \<times> string" where
  "parse_pair s =
     (decode_component (takeWhile (\<lambda>c. c \<noteq> CHR ''='') s),
      decode_component (drop 1 (dropWhile (\<lambda>c. c \<noteq> CHR ''='') s)))"

definition URLSearchParams :: "string \<Rightarrow> (string \<times> string) list" where
  "URLSearchParams init =
     map parse_pair
       (filter (\<lambda>s. s \<noteq> [])
         (split_on CHR ''&'' (if take 1 init = ''?'' then drop 1 init else init)))"

section \<open>String.prototype.replace with a global regular expression\<close>

text \<open>
  \<open>GetSubstitution\<close> expands the \<open>$\<close> patterns of a replacement string for a
  match of a regular expression without capture groups: \<open>$$\<close>, \<open>$&\<close> (the
  match), \<open>$`\<close> (the text preceding it) and \<open>$'\<close> (the text following it). With no
  groups, \<open>$1\<close> and \<open>$<\<close> stand for themselves.
\<close>

fun GetSubstitution :: "string \<Rightarrow> string \<Rightarrow> string \<Rightarrow> string \<Rightarrow> string" where
  "GetSubstitution matched preceding following (c # d # t) =
     (if c \<noteq> CHR ''$'' then c # GetSubstitution matched preceding following (d # t)
      else if d = CHR ''$'' then CHR ''$'' # GetSubstitution matched preceding following t
      else if d = CHR ''&'' then matched @ GetSubstitution matched preceding following t
      else if d = CHR 0x60 then preceding @ GetSubstitution matched preceding following t
      else if d = CHR 0x27 then following @ GetSubstitution matched preceding following t
      else CHR ''$'' # GetSubstitution matched preceding following (d # t))"
| "GetSubstitution matched preceding following t = t"

text \<open>
  \<open>replace_global pat tmpl preceding s\<close> is \<open>s.replace(re, tmpl)\<close> for a global
  regular expression \<open>re\<close> that matches exactly the non-empty text \<open>pat\<close>:
  the matches are found from left to right, each search starting where the last match
  ended; \<open>preceding\<close> is the part of the subject already passed.
\<close>

fun replace_global :: "string \<Rightarrow> string \<Rightarrow> string \<Rightarrow> string \<Rightarrow> string" where
  "replace_global pat tmpl preceding [] = []"
| "replace_global pat tmpl preceding (c # cs) =
     (if pat \<noteq> [] \<and> prefix pat (c # cs)
      then GetSubstitution pat preceding (drop (length pat - 1) cs) tmpl
           @ replace_global pat tmpl (preceding @ pat) (drop (length pat - 1) cs)
      else c # replace_global pat tmpl (preceding @ [c]) cs)"

text \<open>
  \<open>new RegExp(`\\{${key}\\}`, 'g')\<close>: the parameter name goes into the pattern
  unescaped. A name without regular-expression syntax characters gives the pattern that
  matches the text \<open>{key}\<close>. A name with unbalanced parentheses (and neither a
  backslash nor a \<open>[\<close>, inside which a parenthesis would be literal) is not a
  pattern: the constructor throws SyntaxError. Other names are patterns with operators:
  whether the constructor accepts them and what they match is the business of the
  browser's regular-expression engine, and \<open>replaceQueryPlaceholder\<close> is
  \<open>Unmodelled\<close> there; the renderer then takes the result from the browser
  (\<open>finalLink\<close> below).
\<close>

definition syntax_characters :: "char set" where
  "syntax_characters = set (''^$.*+?()[]{}|'' @ [CHR 0x5C])"

fun balanced :: "nat \<Rightarrow> string \<Rightarrow> bool" where
  "balanced depth [] = (depth = 0)"
| "balanced depth (c # cs) =
     (if c = CHR ''('' then balanced (Suc depth) cs
      else if c = CHR '')'' then 0 < depth \<and> balanced (depth - 1) cs
      else balanced depth cs)"

datatype regexp = Matches string | Invalid | Operators

definition RegExp_placeholder :: "string \<Rightarrow> regexp" where
  "RegExp_placeholder key =
     (if set key \<inter> syntax_characters = {} then Matches (''{'' @ key @ ''}'')
      else if CHR 0x5C \<notin> set key \<and> CHR ''['' \<notin> set key \<and> \<not> balanced 0 key then Invalid
      else Operators)"

section \<open>replaceQueryPlaceholder\<close>

fun forEach_param :: "(string \<times> string) list \<Rightarrow> string \<Rightarrow> string completion" where
  "forEach_param [] result = Normal result"
| "forEach_param ((key, v) # params) result =
     (case RegExp_placeholder key of
        Matches pat \<Rightarrow> forEach_param params (replace_global pat v [] result)
      | Invalid \<Rightarrow> Throw SyntaxError
      | Operators \<Rightarrow> Unmodelled)"

definition replaceQueryPlaceholder :: "string \<Rightarrow> string \<Rightarrow> string completion" where
  "replaceQueryPlaceholder url queryString =
     (let result = replace_global ''{query}'' queryString [] url in
      if queryString \<noteq> [] then forEach_param (URLSearchParams queryString) result
      else Normal result)"

section \<open>Numbers and parseInt\<close>

text \<open>
  A Number that holds a non-negative integer is represented by that integer, or is
  \<open>+\<infinity>\<close>. \<open>parseInt\<close> is only ever applied to a non-empty string of
  decimal digits (the capture of \<open>\d+\<close>): it takes the integer the digits denote
  and rounds it to the nearest double, ties to even, as the conversion to a Number does
  (past 20 significant digits the language lets an implementation round the digits
  first; nothing below depends on such an index).
\<close>

datatype number = Finite nat | PosInfinity

definition digits_value :: "string \<Rightarrow> nat" where
  "digits_value ds = foldl (\<lambda>n c. 10 * n + (of_char c - 48)) 0 ds"

fun bit_length :: "nat \<Rightarrow> nat" where
  "bit_length n = (if n = 0 then 0 else Suc (bit_length (n div 2)))"

declare bit_length.simps [simp del]

definition round_to_double :: "nat \<Rightarrow> nat" where
  "round_to_double n =
     (if n < 2 ^ 53 then n
      else
        (let e = bit_length n - 53; q = n div 2 ^ e; r = n mod 2 ^ e; half = 2 ^ (e - 1)
         in (if half < r \<or> (r = half \<and> odd q) then q + 1 else q) * 2 ^ e))"

definition to_number :: "nat \<Rightarrow> number" where
  "to_number n = (let r = round_to_double n in if 2 ^ 1024 \<le> r then PosInfinity else Finite r)"

definition parseInt :: "string \<Rightarrow> number" where
  "parseInt ds = to_number (digits_value ds)"

section \<open>parseURL\<close>

text \<open>
  \<open>window.location\<close>: the path and the query component of the page's URL
  (\<open>None\<close> when the URL has no query). The \<open>search\<close> getter is empty for a
  missing or empty query and \<open>?\<close> followed by the query otherwise.
\<close>

record location =
  pathname :: string
  query :: "string option"

definition search :: "location \<Rightarrow> string" where
  "search l = (case query l of None \<Rightarrow> [] | Some q \<Rightarrow> if q = [] then [] else CHR ''?'' # q)"

record route =
  pagePath :: "string option"
  imageIndex :: "number option"
  queryString :: string

definition is_digit :: "char \<Rightarrow> bool" where
  "is_digit c = (c \<in> set ''0123456789'')"

text \<open>
  \<open>path.match(/^\/([^\/]+)(?:\/image\/(\d+))?$/)\<close>: the result is the pair of the
  two captures, the second undefined when the optional group took no part. The first
  capture is the longest run without a slash after the leading slash; then the input
  ends, or goes on with \<open>/image/\<close> and digits up to its end.
\<close>

definition match_path :: "string \<Rightarrow> (string \<times> string option) option" where
  "match_path path =
     (case path of
        [] \<Rightarrow> None
      | c # rest \<Rightarrow>
          if c \<noteq> CHR ''/'' then None
          else
            (let seg = takeWhile (\<lambda>x. x \<noteq> CHR ''/'') rest;
                 more = dropWhile (\<lambda>x. x \<noteq> CHR ''/'') rest
             in if seg = [] then None
                else if more = [] then Some (seg, None)
                else if take 7 more = ''/image/'' \<and> drop 7 more \<noteq> []
                        \<and> list_all is_digit (drop 7 more)
                  then Some (seg, Some (drop 7 more))
                else None))"

definition parseURL :: "location \<Rightarrow> route" where
  "parseURL l =
     (let qs = drop 1 (search l) in
      case match_path (pathname l) of
        None \<Rightarrow> \<lparr>pagePath = None, imageIndex = None, queryString = qs\<rparr>
      | Some (seg, idx) \<Rightarrow>
          if seg = ''index.html'' then \<lparr>pagePath = None, imageIndex = None, queryString = qs\<rparr>
          else \<lparr>pagePath = Some seg, imageIndex = map_option parseInt idx, queryString = qs\<rparr>)"

text \<open>
  The two shapes of a path the router knows, for stating what \<open>parseURL\<close>
  recognises: \<open>/{segment}\<close> and \<open>/{segment}/image/{digits}\<close>.
\<close>

definition segment_ok :: "string \<Rightarrow> bool" where
  "segment_ok p = (p \<noteq> [] \<and> CHR ''/'' \<notin> set p)"

definition digits_ok :: "string \<Rightarrow> bool" where
  "digits_ok ds = (ds \<noteq> [] \<and> list_all is_digit ds)"

definition page_shape :: "string \<Rightarrow> string" where
  "page_shape p = ''/'' @ p"

definition image_shape :: "string \<Rightarrow> string \<Rightarrow> string" where
  "image_shape p ds = ''/'' @ p @ ''/image/'' @ ds"

section \<open>Configuration documents\<close>

text \<open>
  A configuration is the object \<open>response.json()\<close> delivers, at the types the
  format gives its fields: the scalar fields of the page and of each button are strings
  when present, \<open>buttons\<close> is an array of button objects when present. A missing
  property reads as \<open>undefined\<close>, here \<open>None\<close>.
\<close>

type_synonym object = "string \<rightharpoonup> string"

record config =
  props :: object
  buttons :: "object list option"

definition truthy :: "string option \<Rightarrow> bool" where
  "truthy v = (case v of None \<Rightarrow> False | Some s \<Rightarrow> s \<noteq> [])"

definition or_else :: "string option \<Rightarrow> string option \<Rightarrow> string option" where
  "or_else a b = (if truthy a then a else b)"

definition or_string :: "string option \<Rightarrow> string \<Rightarrow> string" where
  "or_string a s = (case a of None \<Rightarrow> s | Some x \<Rightarrow> if x \<noteq> [] then x else s)"

definition nullish :: "string option \<Rightarrow> string option \<Rightarrow> string option" where
  "nullish a b = (case a of None \<Rightarrow> b | Some x \<Rightarrow> Some x)"

definition display :: "string option \<Rightarrow> string" where
  "display v = (case v of None \<Rightarrow> ''undefined'' | Some s \<Rightarrow> s)"

fun join :: "string \<Rightarrow> string list \<Rightarrow> string" where
  "join sep [] = []"
| "join sep [x] = x"
| "join sep (x # y # ys) = x @ sep @ join sep (y # ys)"

definition basePath :: string where
  "basePath = ''/pages''"

definition getResourcePath :: "string \<Rightarrow> string option \<Rightarrow> string option" where
  "getResourcePath page resource =
     (case resource of
        None \<Rightarrow> None
      | Some r \<Rightarrow>
          if r = [] then None
          else if prefix ''http'' r then Some r
          else Some (basePath @ ''/'' @ page @ ''/'' @ r))"

section \<open>Fonts\<close>

text \<open>
  \<open>trim\<close> removes white space and line terminators from both ends; the list holds
  the UTF-8 encodings of the code points JavaScript counts as such.
\<close>

definition white_space :: "string list" where
  "white_space =
     [[CHR 0x09], [CHR 0x0A], [CHR 0x0B], [CHR 0x0C], [CHR 0x0D], [CHR 0x20],
      [CHR 0xC2, CHR 0xA0], [CHR 0xE1, CHR 0x9A, CHR 0x80],
      [CHR 0xE2, CHR 0x80, CHR 0x80], [CHR 0xE2, CHR 0x80, CHR 0x81],
      [CHR 0xE2, CHR 0x80, CHR 0x82], [CHR 0xE2, CHR 0x80, CHR 0x83],
      [CHR 0xE2, CHR 0x80, CHR 0x84], [CHR 0xE2, CHR 0x80, CHR 0x85],
      [CHR 0xE2, CHR 0x80, CHR 0x86], [CHR 0xE2, CHR 0x80, CHR 0x87],
      [CHR 0xE2, CHR 0x80, CHR 0x88], [CHR 0xE2, CHR 0x80, CHR 0x89],
      [CHR 0xE2, CHR 0x80, CHR 0x8A], [CHR 0xE2, CHR 0x80, CHR 0xA8],
      [CHR 0xE2, CHR 0x80, CHR 0xA9], [CHR 0xE2, CHR 0x80, CHR 0xAF],
      [CHR 0xE2, CHR 0x81, CHR 0x9F], [CHR 0xE3, CHR 0x80, CHR 0x80],
      [CHR 0xEF, CHR 0xBB, CHR 0xBF]]"

fun strip_leading :: "string list \<Rightarrow> string \<Rightarrow> string" where
  "strip_leading ws [] = []"
| "strip_leading ws (c # cs) =
     (case find (\<lambda>w. w \<noteq> [] \<and> prefix w (c # cs)) ws of
        None \<Rightarrow> c # cs
      | Some w \<Rightarrow> strip_leading ws (drop (length w - 1) cs))"

definition trim :: "string \<Rightarrow> string" where
  "trim s = rev (strip_leading (map rev white_space) (rev (strip_leading white_space s)))"

definition unreserved :: "char set" where
  "unreserved =
     set ''ABCDEFGHIJKLMNOPQRSTUVWXYZabcdefghijklmnopqrstuvwxyz0123456789-_.!~*()''
       \<union> {CHR 0x27}"

definition hex_digits :: "nat \<Rightarrow> string" where
  "hex_digits n = [''0123456789ABCDEF'' ! (n div 16 mod 16), ''0123456789ABCDEF'' ! (n mod 16)]"

definition encodeURIComponent :: "string \<Rightarrow> string" where
  "encodeURIComponent s =
     concat (map (\<lambda>c. if c \<in> unreserved then [c] else CHR ''%'' # hex_digits (of_char c)) s)"

definition getFontUrl :: "config \<Rightarrow> string option" where
  "getFontUrl cfg =
     (if truthy (props cfg ''fontUrl'') then props cfg ''fontUrl''
      else if \<not> truthy (props cfg ''fontFamily'') then None
      else
        (let familyName =
               trim (case split_on CHR '','' (display (props cfg ''fontFamily'')) of
                       [] \<Rightarrow> [] | first # _ \<Rightarrow> first)
         in if familyName = [] then None
            else Some (''https://fonts.googleapis.com/css2?family='' @ encodeURIComponent familyName
                       @ '':wght@400;500;600;700&display=swap'')))"

section \<open>The page\<close>

text \<open>
  The text of a template literal is kept as its pieces: literal text and the values put
  in, a Number standing for the text it is converted to. What \<open>innerHTML\<close> is set to is
  kept as the values that fill the holes of the markup, one constructor per screen. It
  is the text the renderer writes that is kept, not the tree the parser builds from it:
  the values go into the markup unescaped, and a value with a quote or an angle bracket
  can end an attribute or a tag before the renderer's own text does.
\<close>

datatype fragment = Str string | Num number

record card =
  data_index :: nat
  card_style :: string
  card_icon :: "string option"
  card_text :: string
  card_subtitle :: "string option"

record buttons_page =
  container_style :: string
  logo :: "string option"
  page_title :: string
  page_desc :: "string option"
  cards :: "card list"

record image_page =
  page_style :: string
  back_url :: string
  image :: "(string \<times> string) option"
  href :: string
  vars_style :: string
  link_icon :: "string option"
  link_text :: string

datatype view = Blank | ErrorPage string "fragment list" | ButtonsPage buttons_page | ImagePage image_page

text \<open>
  The state the controller reads and writes: the document title, the content of the
  description meta element (\<open>None\<close> when the document has none), the \<open>href\<close>
  of every \<open>link[data-custom-font]\<close> in the head, the content of the app element
  (the element itself is there: \<open>index.html\<close> declares it), whether
  \<open>setupImageScrollBehavior\<close> has been called on that content (what the call
  installs depends on the element it finds there, see the section on the scroll
  handlers), the location and the \<open>redirect_path\<close> item of the session storage.
  The click handlers of the cards only navigate to another document and are not part of
  the state.

  The last field is the browser's regular-expression engine, as far as the controller
  uses it: for a link and a query string with a parameter name that is a pattern with
  operators, what the \<open>replace\<close> calls of \<open>replaceQueryPlaceholder\<close>
  make of the link, \<open>None\<close> when a \<open>RegExp\<close> constructor throws its
  SyntaxError. Nothing is assumed about it.

  \<open>ensureFont\<close> compares \<open>link.href\<close>, which the browser reports as a
  resolved URL, with the URL it wants; here the attribute is compared as written. Both
  branches of the comparison leave the same \<open>href\<close>.
\<close>

record browser =
  doc_title :: string
  meta_description :: "fragment list option"
  font_links :: "string list"
  app :: view
  scroll_behavior :: bool
  loc :: location
  redirect_path :: "string option"
  regexp_engine :: "string \<Rightarrow> string \<Rightarrow> string option"

definition ensureFont :: "config \<Rightarrow> browser \<Rightarrow> browser" where
  "ensureFont cfg b =
     (case getFontUrl cfg of
        None \<Rightarrow> b
      | Some fontUrl \<Rightarrow>
          if fontUrl = [] then b
          else
            (case font_links b of
               [] \<Rightarrow> b\<lparr>font_links := [fontUrl]\<rparr>
             | h # others \<Rightarrow> b\<lparr>font_links := (if h \<noteq> fontUrl then fontUrl else h) # others\<rparr>))"

definition updatePageMeta :: "string \<Rightarrow> fragment list \<Rightarrow> browser \<Rightarrow> browser" where
  "updatePageMeta t description b =
     b\<lparr>doc_title := (if t \<noteq> [] then t else doc_title b),
       meta_description := (case meta_description b of None \<Rightarrow> None | Some _ \<Rightarrow> Some description)\<rparr>"

definition renderError :: "string \<Rightarrow> fragment list \<Rightarrow> browser \<Rightarrow> browser" where
  "renderError t message b = (updatePageMeta t message b)\<lparr>app := ErrorPage t message\<rparr>"

definition when_truthy :: "string option \<Rightarrow> (string \<Rightarrow> 'a) \<Rightarrow> 'a list" where
  "when_truthy v f = (case v of None \<Rightarrow> [] | Some s \<Rightarrow> if s \<noteq> [] then [f s] else [])"

definition buildStyleVars :: "string option \<Rightarrow> string option \<Rightarrow> string" where
  "buildStyleVars backgroundColor textColor =
     (let styleParts = when_truthy backgroundColor (\<lambda>c. ''--btn-bg: '' @ c)
                       @ when_truthy textColor (\<lambda>c. ''--btn-text: '' @ c)
      in if styleParts \<noteq> [] then '' style='' @ [CHR 0x22] @ join ''; '' styleParts @ [CHR 0x22]
         else [])"

definition renderButtonsPage :: "string \<Rightarrow> config \<Rightarrow> string \<Rightarrow> browser \<Rightarrow> unit completion \<times> browser" where
  "renderButtonsPage page cfg qs b0 =
     (let b1 = ensureFont cfg b0;
          backgroundUrl = getResourcePath page (props cfg ''background'');
          logoUrl = getResourcePath page (props cfg ''logo'');
          b2 = updatePageMeta (or_string (props cfg ''title'') page)
                 [Str (or_string (props cfg ''description'') [])] b1;
          pageBackgroundColor = or_else (props cfg ''pageBackgroundColor'') (props cfg ''backgroundColor'');
          pageButtonBackgroundColor =
            or_else (props cfg ''pageButtonBackgroundColor'') (props cfg ''buttonBackgroundColor'');
          pageButtonTextColor = or_else (props cfg ''pageButtonTextColor'') (props cfg ''buttonTextColor'');
          containerStyle =
            join ''; ''
              (when_truthy backgroundUrl (\<lambda>u. ''background-image: url('' @ [CHR 0x27] @ u @ [CHR 0x27] @ '')'')
               @ when_truthy pageBackgroundColor (\<lambda>c. ''background-color: '' @ c)
               @ when_truthy (props cfg ''fontFamily'') (\<lambda>f. ''font-family: '' @ f))
      in case buttons cfg of
           None \<Rightarrow> (Throw TypeError, b2)
         | Some btns \<Rightarrow>
             (Normal (),
              b2\<lparr>app := ButtonsPage
                \<lparr>container_style = containerStyle,
                 logo = logoUrl,
                 page_title = or_string (props cfg ''title'') page,
                 page_desc = (if truthy (props cfg ''description'') then props cfg ''description'' else None),
                 cards =
                   map (\<lambda>(idx, btn).
                          \<lparr>data_index = idx,
                           card_style =
                             buildStyleVars (nullish (btn ''backgroundColor'') pageButtonBackgroundColor)
                               (nullish (btn ''textColor'') pageButtonTextColor),
                           card_icon = (if truthy (btn ''icon'') then btn ''icon'' else None),
                           card_text = display (btn ''text''),
                           card_subtitle = (if truthy (btn ''subtitle'') then btn ''subtitle'' else None)\<rparr>)
                       (enumerate 0 btns)\<rparr>\<rparr>))"

definition lookup_button :: "object list \<Rightarrow> number \<Rightarrow> object option" where
  "lookup_button btns i =
     (case i of PosInfinity \<Rightarrow> None | Finite n \<Rightarrow> if n < length btns then Some (btns ! n) else None)"

definition title_page_missing :: string where
  "title_page_missing =
     [CHR 0xE9, CHR 0xA1, CHR 0xB5, CHR 0xE9, CHR 0x9D, CHR 0xA2, CHR 0xE4, CHR 0xB8, CHR 0x8D,
      CHR 0xE5, CHR 0xAD, CHR 0x98, CHR 0xE5, CHR 0x9C, CHR 0xA8]"

definition title_image_missing :: string where
  "title_image_missing =
     [CHR 0xE5, CHR 0x9B, CHR 0xBE, CHR 0xE7, CHR 0x89, CHR 0x87, CHR 0xE4, CHR 0xB8, CHR 0x8D,
      CHR 0xE5, CHR 0xAD, CHR 0x98, CHR 0xE5, CHR 0x9C, CHR 0xA8]"

definition page_not_found_prefix :: string where
  "page_not_found_prefix =
     [CHR 0xE6, CHR 0x89, CHR 0xBE, CHR 0xE4, CHR 0xB8, CHR 0x8D, CHR 0xE5, CHR 0x88, CHR 0xB0,
      CHR 0xE9, CHR 0xA1, CHR 0xB5, CHR 0xE9, CHR 0x9D, CHR 0xA2, CHR '':'', CHR '' '']"

definition index_not_found_prefix :: string where
  "index_not_found_prefix =
     [CHR 0xE6, CHR 0x89, CHR 0xBE, CHR 0xE4, CHR 0xB8, CHR 0x8D, CHR 0xE5, CHR 0x88, CHR 0xB0,
      CHR 0xE7, CHR 0xB4, CHR 0xA2, CHR 0xE5, CHR 0xBC, CHR 0x95, CHR 0xE4, CHR 0xB8, CHR 0xBA, CHR '' '']"

definition index_not_found_suffix :: string where
  "index_not_found_suffix =
     [CHR '' '', CHR 0xE7, CHR 0x9A, CHR 0x84, CHR 0xE6, CHR 0x8C, CHR 0x89, CHR 0xE9, CHR 0x92, CHR 0xAE]"

definition default_link_text :: string where
  "default_link_text =
     [CHR 0xE5, CHR 0x89, CHR 0x8D, CHR 0xE5, CHR 0xBE, CHR 0x80, CHR 0xE9, CHR 0x93, CHR 0xBE,
      CHR 0xE6, CHR 0x8E, CHR 0xA5]"

definition with_query :: "string \<Rightarrow> string" where
  "with_query qs = (if qs \<noteq> [] then CHR ''?'' # qs else [])"

text \<open>
  \<open>const finalLink = this.replaceQueryPlaceholder(button.link, queryString)\<close>:
  the link as \<open>replaceQueryPlaceholder\<close> gives it, and where a parameter name is a
  pattern with operators as the browser's engine gives it. It returns a link or throws.
\<close>

definition finalLink :: "browser \<Rightarrow> string \<Rightarrow> string \<Rightarrow> string completion" where
  "finalLink b url qs =
     (case replaceQueryPlaceholder url qs of
        Normal link \<Rightarrow> Normal link
      | Throw e \<Rightarrow> Throw e
      | Unmodelled \<Rightarrow>
          (case regexp_engine b url qs of
             None \<Rightarrow> Throw SyntaxError
           | Some link \<Rightarrow> Normal link))"

definition renderImagePage :: "string \<Rightarrow> config \<Rightarrow> number \<Rightarrow> string \<Rightarrow> browser \<Rightarrow> unit completion \<times> browser" where
  "renderImagePage page cfg idx qs b0 =
     (case buttons cfg of
        None \<Rightarrow> (Throw TypeError, b0)
      | Some btns \<Rightarrow>
          (case lookup_button btns idx of
             None \<Rightarrow>
               (Normal (),
                renderError title_image_missing
                  [Str index_not_found_prefix, Num idx, Str index_not_found_suffix] b0)
           | Some button \<Rightarrow>
               (let imageUrl = getResourcePath page (button ''image'') in
                case button ''link'' of
                  None \<Rightarrow> (Throw TypeError, b0)
                | Some url \<Rightarrow>
                    (case finalLink b0 url qs of
                       Throw e \<Rightarrow> (Throw e, b0)
                     | Unmodelled \<Rightarrow> (Unmodelled, b0)
                     | Normal link \<Rightarrow>
                         (let backUrl = ''/'' @ page @ with_query qs;
                              imageTitle =
                                (if truthy (button ''text'')
                                 then display (button ''text'') @ '' - '' @ or_string (props cfg ''title'') page
                                 else or_string (props cfg ''title'') page);
                              b1 = updatePageMeta imageTitle [Str (or_string (props cfg ''description'') [])] b0;
                              b2 = ensureFont cfg b1;
                              imageBackgroundColor =
                                or_else (props cfg ''imageBackgroundColor'') (props cfg ''backgroundColor'');
                              imageButtonBackgroundColor =
                                or_else (props cfg ''imageButtonBackgroundColor'') (props cfg ''buttonBackgroundColor'');
                              imageButtonTextColor =
                                or_else (props cfg ''imageButtonTextColor'') (props cfg ''buttonTextColor'');
                              imagePageStyleParts =
                                when_truthy imageBackgroundColor (\<lambda>c. ''background-color: '' @ c)
                                @ when_truthy (props cfg ''fontFamily'') (\<lambda>f. ''font-family: '' @ f);
                              imagePageStyle =
                                (if imagePageStyleParts \<noteq> []
                                 then '' style='' @ [CHR 0x22] @ join ''; '' imagePageStyleParts @ [CHR 0x22]
                                 else [])
                          in (Normal (),
                              b2\<lparr>app := ImagePage
                                   \<lparr>page_style = imagePageStyle,
                                    back_url = backUrl,
                                    image = map_option (\<lambda>u. (u, display (button ''text''))) imageUrl,
                                    href = link,
                                    vars_style =
                                      buildStyleVars (nullish (button ''backgroundColor'') imageButtonBackgroundColor)
                                        (nullish (button ''textColor'') imageButtonTextColor),
                                    link_icon = (if truthy (button ''icon'') then button ''icon'' else None),
                                    link_text =
                                      or_string (button ''linkText'') (or_string (button ''text'') default_link_text)\<rparr>,
                                 scroll_behavior := True\<rparr>))))))"

text \<open>
  The layering of colours in the words of the specification: the colour of the button,
  else the colour of the surface, else the colour of the page, else none.
\<close>

definition layered :: "string option \<Rightarrow> string option \<Rightarrow> string option \<Rightarrow> string option" where
  "layered explicit surface page_level =
     (case explicit of Some c \<Rightarrow> Some c | None \<Rightarrow> if truthy surface then surface else page_level)"

section \<open>init\<close>

text \<open>
  What \<open>fetch\<close> and \<open>response.json()\<close> deliver for a URL: the request fails
  (\<open>fetch\<close> rejects with a TypeError), the status is not a success (\<open>loadConfig\<close>
  throws an Error), the body is not JSON (\<open>json()\<close> rejects with a SyntaxError), or a
  configuration. \<open>history.replaceState\<close> resolves the stored path against the
  page's URL and throws a SecurityError when the result is of another origin; the
  resolution is the browser's and is a parameter here.
\<close>

datatype response = NetworkError | NotOk | Unparsable | Document config

definition loadConfig :: "(string \<Rightarrow> response) \<Rightarrow> string \<Rightarrow> config completion" where
  "loadConfig fetch page =
     (case fetch (basePath @ ''/'' @ page @ ''/config.json'') of
        NetworkError \<Rightarrow> Throw TypeError
      | NotOk \<Rightarrow> Throw Error
      | Unparsable \<Rightarrow> Throw SyntaxError
      | Document cfg \<Rightarrow> Normal cfg)"

definition handleRedirect :: "(string \<Rightarrow> location option) \<Rightarrow> browser \<Rightarrow> unit completion \<times> browser" where
  "handleRedirect resolve b =
     (if truthy (redirect_path b) then
        (case resolve (display (redirect_path b)) of
           None \<Rightarrow> (Throw SecurityError, b\<lparr>redirect_path := None\<rparr>)
         | Some l \<Rightarrow> (Normal (), b\<lparr>redirect_path := None, loc := l\<rparr>))
      else (Normal (), b))"

definition load_and_render :: "(string \<Rightarrow> response) \<Rightarrow> string \<Rightarrow> route \<Rightarrow> browser \<Rightarrow> unit completion \<times> browser" where
  "load_and_render fetch page r b =
     (case loadConfig fetch page of
        Throw e \<Rightarrow> (Throw e, b)
      | Unmodelled \<Rightarrow> (Unmodelled, b)
      | Normal cfg \<Rightarrow>
          (case imageIndex r of
             Some idx \<Rightarrow> renderImagePage page cfg idx (queryString r) b
           | None \<Rightarrow> renderButtonsPage page cfg (queryString r) b))"

definition init :: "(string \<Rightarrow> location option) \<Rightarrow> (string \<Rightarrow> response) \<Rightarrow> browser \<Rightarrow> unit completion \<times> browser" where
  "init resolve fetch b0 =
     (case handleRedirect resolve b0 of
        (Throw e, b1) \<Rightarrow> (Throw e, b1)
      | (Unmodelled, b1) \<Rightarrow> (Unmodelled, b1)
      | (Normal u, b1) \<Rightarrow>
          (let r = parseURL (loc b1) in
           if \<not> truthy (pagePath r) then (Normal (), renderError ''404'' [Str title_page_missing] b1)
           else
             (case load_and_render fetch (display (pagePath r)) r b1 of
                (Throw e, b2) \<Rightarrow>
                  (Normal (),
                   renderError title_page_missing
                     [Str page_not_found_prefix, Str (display (pagePath r))] b2)
              | (Unmodelled, b2) \<Rightarrow> (Unmodelled, b2)
              | (Normal v, b2) \<Rightarrow> (Normal (), b2))))"

section \<open>The scroll handlers of the image screen\<close>

text \<open>
  \<open>setupImageScrollBehavior\<close> looks for the link of class \<open>image-link-btn\<close> in
  the content of the app element and returns at once when there is none: then no handler
  is installed and no timer is set. Its argument here says whether the link is found.
  Otherwise it keeps the flag \<open>ticking\<close>; the state adds the number of
  \<open>updateState\<close> callbacks handed to \<open>requestAnimationFrame\<close> and not yet run,
  and whether the link carries the class \<open>is-ready\<close> (it carries \<open>is-compact\<close>
  otherwise). What the browser calls is the handler of a scroll or of a resize event, the
  animation frame callbacks requested so far, or the \<open>setTimeout\<close> callback of the
  first check; the last two carry the distance to the bottom that \<open>updateState\<close> then
  measures.
\<close>

record scroll_state =
  listening :: bool
  ticking :: bool
  frame_callbacks :: nat
  is_ready :: bool

datatype event = Scroll | Resize | AnimationFrame int | Timeout int

definition threshold :: int where
  "threshold = 60"

definition applyState :: "bool \<Rightarrow> scroll_state \<Rightarrow> scroll_state" where
  "applyState nearBottom s = s\<lparr>is_ready := nearBottom\<rparr>"

definition updateState :: "int \<Rightarrow> scroll_state \<Rightarrow> scroll_state" where
  "updateState distanceToBottom s = (applyState (distanceToBottom \<le> threshold) s)\<lparr>ticking := False\<rparr>"

definition onScroll :: "scroll_state \<Rightarrow> scroll_state" where
  "onScroll s = (if ticking s then s else s\<lparr>ticking := True, frame_callbacks := Suc (frame_callbacks s)\<rparr>)"

fun fire :: "event \<Rightarrow> scroll_state \<Rightarrow> scroll_state" where
  "fire Scroll s = (if listening s then onScroll s else s)"
| "fire Resize s = (if listening s then onScroll s else s)"
| "fire (AnimationFrame d) s = ((updateState d ^^ frame_callbacks s) s)\<lparr>frame_callbacks := 0\<rparr>"
| "fire (Timeout d) s = (if listening s then updateState d s else s)"

definition setupImageScrollBehavior :: "bool \<Rightarrow> scroll_state" where
  "setupImageScrollBehavior floatBtn =
     \<lparr>listening = floatBtn, ticking = False, frame_callbacks = 0, is_ready = False\<rparr>"

fun run :: "scroll_state \<Rightarrow> event list \<Rightarrow> scroll_state" where
  "run s [] = s"
| "run s (e # es) = run (fire e s) es"

text \<open>
  The order in which the browser makes these calls is that of its event loop (HTML
  Standard, event loop processing model). The loop runs one task after the other, and a
  timer callback is a task. Between two tasks it may update the rendering, and it is
  this step that fires the resize and the scroll events of the document (its resize
  steps and its scroll steps) and then, before it ends, runs the animation frame
  callbacks, those that the handlers of these events have just requested among them. So
  what happens on the image screen is a list of tasks, a timer callback or an update of
  the rendering with the raw events it fires, however many, and \<open>schedule\<close>
  gives the calls it makes, in order.
\<close>

datatype raw_event = ScrollEvent | ResizeEvent

datatype task = TimerTask int | UpdateTheRendering "raw_event list" int

fun handler :: "raw_event \<Rightarrow> event" where
  "handler ScrollEvent = Scroll"
| "handler ResizeEvent = Resize"

fun schedule :: "task list \<Rightarrow> event list" where
  "schedule [] = []"
| "schedule (TimerTask d # tasks) = Timeout d # schedule tasks"
| "schedule (UpdateTheRendering raw d # tasks) = map handler raw @ AnimationFrame d # schedule tasks"

text \<open>
  \<open>timeouts_between_frames s es\<close>: in the calls \<open>es\<close>, made from the state
  \<open>s\<close>, every timer callback runs while no callback waits for a frame. The handlers
  are coalesced in a state when at most one callback waits for the next frame and the
  flag says whether one does.
\<close>

fun timeouts_between_frames :: "scroll_state \<Rightarrow> event list \<Rightarrow> bool" where
  "timeouts_between_frames s [] = True"
| "timeouts_between_frames s (e # es) =
     ((case e of Timeout d \<Rightarrow> frame_callbacks s = 0 | _ \<Rightarrow> True) \<and> timeouts_between_frames (fire e s) es)"

definition coalesced :: "scroll_state \<Rightarrow> bool" where
  "coalesced s = (frame_callbacks s \<le> 1 \<and> (ticking s \<longleftrightarrow> frame_callbacks s = 1))"

section \<open>Templates, for stating what substitution does\<close>

text \<open>
  A link template whose braces delimit placeholders, one after the other: literal text
  without braces and placeholders whose names have no braces.
\<close>

datatype segment = Text string | Placeholder string

fun flatten :: "segment list \<Rightarrow> string" where
  "flatten [] = []"
| "flatten (Text s # t) = s @ flatten t"
| "flatten (Placeholder n # t) = ''{'' @ n @ ''}'' @ flatten t"

definition brace_free :: "string \<Rightarrow> bool" where
  "brace_free s = (CHR ''{'' \<notin> set s \<and> CHR ''}'' \<notin> set s)"

fun well_formed :: "segment list \<Rightarrow> bool" where
  "well_formed [] = True"
| "well_formed (Text s # t) = (brace_free s \<and> well_formed t)"
| "well_formed (Placeholder n # t) = (brace_free n \<and> well_formed t)"

fun expand :: "string \<Rightarrow> segment list \<Rightarrow> segment list \<Rightarrow> segment list" where
  "expand key v [] = []"
| "expand key v (Text s # t) = Text s # expand key v t"
| "expand key v (Placeholder n # t) = (if n = key then v @ expand key v t else Placeholder n # expand key v t)"

text \<open>
  Filling a template in one pass: \<open>{query}\<close> takes the raw query string, every
  other placeholder the value the association list of the parameters gives for its name
  (\<open>map_of\<close> finds the first pair with that name), and a placeholder without a
  parameter stays as it is.
\<close>

fun fill_keys :: "(string \<rightharpoonup> string) \<Rightarrow> segment \<Rightarrow> string" where
  "fill_keys m (Text s) = s"
| "fill_keys m (Placeholder n) = (case m n of None \<Rightarrow> ''{'' @ n @ ''}'' | Some v \<Rightarrow> v)"

fun fill :: "string \<Rightarrow> (string \<rightharpoonup> string) \<Rightarrow> segment \<Rightarrow> string" where
  "fill q m (Text s) = s"
| "fill q m (Placeholder n) = (if n = ''query'' then q else fill_keys m (Placeholder n))"

text \<open>
  A link has a \<open>{...}\<close> token when a closing brace follows its first opening
  brace.
\<close>

definition has_token :: "string \<Rightarrow> bool" where
  "has_token url = (CHR ''}'' \<in> set (dropWhile (\<lambda>c. c \<noteq> CHR ''{'') url))"

definition plain :: "string \<Rightarrow> bool" where
  "plain s = (brace_free s \<and> CHR ''$'' \<notin> set s)"

definition literal_key :: "string \<Rightarrow> bool" where
  "literal_key k = (set k \<inter> syntax_characters = {})"

lemma split_on_nonempty: "split_on d s \<noteq> []"
  by (induction s) (auto split: list.splits)

section \<open>Substitution on templates\<close>

lemma GetSubstitution_plain: "CHR ''$'' \<notin> set t \<Longrightarrow> GetSubstitution m p f t = t"
  by (induction m p f t rule: GetSubstitution.induct) auto

lemma replace_global_skip:
  "CHR ''{'' \<notin> set s \<Longrightarrow>
   replace_global (CHR ''{'' # k) v pre (s @ rest) = s @ replace_global (CHR ''{'' # k) v (pre @ s) rest"
  by (induction s arbitrary: pre) auto

lemma placeholder_prefix:
  "brace_free key \<Longrightarrow> brace_free n \<Longrightarrow> prefix (key @ ''}'') (n @ ''}'' @ rest) \<Longrightarrow> n = key"
proof (induction key arbitrary: n)
  case Nil
  then show ?case by (cases n) (auto simp: brace_free_def)
next
  case (Cons c key)
  then show ?case by (cases n) (auto simp: brace_free_def)
qed

lemma flatten_append: "flatten (a @ b) = flatten a @ flatten b"
  by (induction a rule: flatten.induct) auto

lemma well_formed_append: "well_formed (a @ b) = (well_formed a \<and> well_formed b)"
  by (induction a rule: well_formed.induct) auto

lemma well_formed_expand: "well_formed t \<Longrightarrow> well_formed v \<Longrightarrow> well_formed (expand key v t)"
  by (induction key v t rule: expand.induct) (auto simp: well_formed_append)

lemma replace_global_miss:
  assumes "brace_free key" "brace_free n" "n \<noteq> key"
  shows "replace_global (''{'' @ key @ ''}'') v pre (''{'' @ n @ ''}'' @ rest) =
         ''{'' @ n @ ''}'' @ replace_global (''{'' @ key @ ''}'') v (pre @ ''{'' @ n @ ''}'') rest"
proof -
  have no: "\<not> prefix (key @ ''}'') (n @ ''}'' @ rest)"
    using placeholder_prefix [OF assms(1,2)] assms(3) by blast
  have open_free: "CHR ''{'' \<notin> set (n @ ''}'')"
    using assms(2) by (simp add: brace_free_def)
  have "replace_global (''{'' @ key @ ''}'') v pre (''{'' @ n @ ''}'' @ rest) =
        CHR ''{'' # replace_global (CHR ''{'' # key @ ''}'') v (pre @ ''{'') ((n @ ''}'') @ rest)"
    using no by simp
  also have "\<dots> = CHR ''{'' # (n @ ''}'') @ replace_global (CHR ''{'' # key @ ''}'') v ((pre @ ''{'') @ n @ ''}'') rest"
    by (simp only: replace_global_skip [OF open_free])
  finally show ?thesis by simp
qed

lemma replace_global_flatten:
  assumes "brace_free key" "CHR ''$'' \<notin> set (flatten v)"
  shows "well_formed t \<Longrightarrow>
         replace_global (''{'' @ key @ ''}'') (flatten v) pre (flatten t) = flatten (expand key v t)"
proof (induction t arbitrary: pre rule: flatten.induct)
  case 1
  then show ?case by simp
next
  case (2 s t)
  then have "CHR ''{'' \<notin> set s" by (simp add: brace_free_def)
  from replace_global_skip [OF this] 2 show ?case by simp
next
  case (3 n t)
  show ?case
  proof cases
    assume "n = key"
    with 3 assms show ?thesis
      by (simp add: GetSubstitution_plain flatten_append)
  next
    assume ne: "n \<noteq> key"
    from 3 have bf: "brace_free n" and wf: "well_formed t" by simp_all
    show ?thesis
      using replace_global_miss [OF assms(1) bf ne] 3(1) [OF wf] ne by simp
  qed
qed

lemma literal_key_placeholder: "literal_key k \<Longrightarrow> RegExp_placeholder k = Matches (''{'' @ k @ ''}'')"
  by (simp add: literal_key_def RegExp_placeholder_def)

lemma literal_key_brace_free: "literal_key k \<Longrightarrow> brace_free k"
  by (auto simp: literal_key_def brace_free_def syntax_characters_def)

lemma forEach_param_expand:
  "well_formed t \<Longrightarrow>
   \<forall>(k, v) \<in> set pts. literal_key k \<and> well_formed v \<and> CHR ''$'' \<notin> set (flatten v) \<Longrightarrow>
   forEach_param (map (\<lambda>(k, v). (k, flatten v)) pts) (flatten t) =
   Normal (flatten (foldl (\<lambda>t (k, v). expand k v t) t pts))"
proof (induction pts arbitrary: t)
  case Nil
  then show ?case by simp
next
  case (Cons p pts)
  obtain k v where p: "p = (k, v)" by (cases p)
  from Cons.prems p have k: "literal_key k" and v: "well_formed v" "CHR ''$'' \<notin> set (flatten v)"
    and rest: "\<forall>(k, v) \<in> set pts. literal_key k \<and> well_formed v \<and> CHR ''$'' \<notin> set (flatten v)"
    by auto
  have step: "replace_global (''{'' @ k @ ''}'') (flatten v) [] (flatten t) = flatten (expand k v t)"
    using replace_global_flatten [OF literal_key_brace_free [OF k] v(2) Cons.prems(1)] .
  have "forEach_param (map (\<lambda>(k, v). (k, flatten v)) (p # pts)) (flatten t) =
        forEach_param (map (\<lambda>(k, v). (k, flatten v)) pts) (flatten (expand k v t))"
    using step by (simp add: p literal_key_placeholder [OF k])
  also have "\<dots> = Normal (flatten (foldl (\<lambda>t (k, v). expand k v t) (expand k v t) pts))"
    using Cons.IH [OF well_formed_expand [OF Cons.prems(1) v(1)] rest] .
  finally show ?case by (simp add: p)
qed

lemma URLSearchParams_empty: "URLSearchParams [] = []"
  by (simp add: URLSearchParams_def)

lemma fill_keys_empty: "concat (map (fill_keys Map.empty) t) = flatten t"
  by (induction t rule: flatten.induct) auto

lemma fill_keys_expand:
  "concat (map (fill_keys m) (expand k [Text v] t)) = concat (map (fill_keys (m(k \<mapsto> v))) t)"
  by (induction k "[Text v]" t rule: expand.induct) auto

lemma fill_expand_query:
  "concat (map (fill_keys m) (expand ''query'' [Text q] t)) = concat (map (fill q m) t)"
  by (induction t rule: flatten.induct) auto

lemma foldl_expand_texts:
  "flatten (foldl (\<lambda>t (k, v). expand k v t) t (map (\<lambda>(k, v). (k, [Text v])) ps)) =
   concat (map (fill_keys (map_of ps)) t)"
proof (induction ps arbitrary: t)
  case Nil
  show ?case by (simp add: fill_keys_empty)
next
  case (Cons p ps)
  obtain k v where p: "p = (k, v)" by (cases p)
  show ?case
    by (simp add: p Cons.IH fill_keys_expand fun_upd_def)
qed

section \<open>Paths and numbers\<close>

lemma match_path_page:
  assumes "segment_ok p"
  shows "match_path (page_shape p) = Some (p, None)"
proof -
  have "\<forall>x \<in> set p. x \<noteq> CHR ''/''" using assms by (auto simp: segment_ok_def)
  then have tw: "takeWhile (\<lambda>x. x \<noteq> CHR ''/'') p = p" and dw: "dropWhile (\<lambda>x. x \<noteq> CHR ''/'') p = []"
    by simp_all
  show ?thesis
    using assms unfolding match_path_def page_shape_def segment_ok_def Let_def
    by (simp add: tw dw del: takeWhile_eq_all_conv dropWhile_eq_Nil_conv)
qed

lemma takeWhile_segment:
  "CHR ''/'' \<notin> set p \<Longrightarrow> takeWhile (\<lambda>x. x \<noteq> CHR ''/'') (p @ CHR ''/'' # rest) = p"
  by (induction p) auto

lemma dropWhile_segment:
  "CHR ''/'' \<notin> set p \<Longrightarrow> dropWhile (\<lambda>x. x \<noteq> CHR ''/'') (p @ CHR ''/'' # rest) = CHR ''/'' # rest"
  by (induction p) auto

lemma match_path_image:
  assumes "segment_ok p" "digits_ok ds"
  shows "match_path (image_shape p ds) = Some (p, Some ds)"
  using assms unfolding match_path_def image_shape_def segment_ok_def digits_ok_def Let_def
  by (simp add: takeWhile_segment dropWhile_segment)

lemma match_path_Some:
  assumes "match_path path = Some (seg, idx)"
  shows "segment_ok seg \<and>
         (case idx of None \<Rightarrow> path = page_shape seg
          | Some ds \<Rightarrow> digits_ok ds \<and> path = image_shape seg ds)"
proof (cases path)
  case Nil
  with assms show ?thesis by (simp add: match_path_def)
next
  case (Cons c rest)
  let ?seg = "takeWhile (\<lambda>x. x \<noteq> CHR ''/'') rest"
  let ?more = "dropWhile (\<lambda>x. x \<noteq> CHR ''/'') rest"
  have split: "rest = ?seg @ ?more" by simp
  have noslash: "CHR ''/'' \<notin> set ?seg" by (auto dest: set_takeWhileD)
  from assms Cons have c: "c = CHR ''/''" and seg: "seg = ?seg" "?seg \<noteq> []"
    by (auto simp: match_path_def Let_def split: if_splits)
  show ?thesis
  proof (cases idx)
    case None
    with assms Cons c seg have "?more = []"
      by (auto simp: match_path_def Let_def split: if_splits)
    with split have "rest = ?seg" by simp
    with None Cons c seg noslash show ?thesis
      by (simp add: segment_ok_def page_shape_def)
  next
    case (Some ds)
    with assms Cons c seg have more: "take 7 ?more = ''/image/''" "ds = drop 7 ?more" "ds \<noteq> []" "list_all is_digit ds"
      by (auto simp: match_path_def Let_def split: if_splits)
    have "?more = take 7 ?more @ drop 7 ?more" by simp
    with more have "?more = ''/image/'' @ ds" by simp
    with split have "rest = ?seg @ ''/image/'' @ ds" by simp
    with Some Cons c seg noslash more show ?thesis
      by (simp add: segment_ok_def image_shape_def digits_ok_def)
  qed
qed

lemma bit_length_2_53: "bit_length 9007199254740992 = 54"
  by (simp add: bit_length.simps)

lemma round_to_double_exact: "n \<le> 2 ^ 53 \<Longrightarrow> round_to_double n = n"
proof -
  assume le: "n \<le> 2 ^ 53"
  show ?thesis
  proof cases
    assume "n < 2 ^ 53"
    then show ?thesis by (simp add: round_to_double_def)
  next
    assume "\<not> n < 2 ^ 53"
    with le have n: "n = 9007199254740992" by simp
    show ?thesis unfolding n round_to_double_def bit_length_2_53 by (simp add: Let_def)
  qed
qed

lemma parseInt_exact: "digits_value ds \<le> 2 ^ 53 \<Longrightarrow> parseInt ds = Finite (digits_value ds)"
proof -
  assume le: "digits_value ds \<le> 2 ^ 53"
  have "(2::nat) ^ 53 < 2 ^ 1024" by simp
  with le have "\<not> (2::nat) ^ 1024 \<le> digits_value ds" by linarith
  with le show ?thesis
    by (simp add: parseInt_def to_number_def round_to_double_exact Let_def)
qed

lemma search_query: "drop (Suc 0) (search l) = (case query l of None \<Rightarrow> [] | Some q \<Rightarrow> q)"
  by (simp add: search_def split: option.splits)

lemma first_segment_page:
  "segment_ok p \<Longrightarrow> takeWhile (\<lambda>x. x \<noteq> CHR ''/'') (tl (page_shape p)) = p"
  by (auto simp: segment_ok_def page_shape_def)

lemma first_segment_image:
  "segment_ok p \<Longrightarrow> takeWhile (\<lambda>x. x \<noteq> CHR ''/'') (tl (image_shape p ds)) = p"
  by (simp add: segment_ok_def image_shape_def takeWhile_segment)

lemma match_path_shape:
  assumes "match_path path = Some (seg, idx)"
  shows "segment_ok seg \<and> seg = takeWhile (\<lambda>x. x \<noteq> CHR ''/'') (tl path)"
proof -
  from match_path_Some [OF assms] have ok: "segment_ok seg"
    and shape: "case idx of None \<Rightarrow> path = page_shape seg | Some ds \<Rightarrow> digits_ok ds \<and> path = image_shape seg ds"
    by simp_all
  from shape ok show ?thesis
    by (cases idx) (simp_all add: first_segment_page first_segment_image)
qed

lemma index_html_ok: "segment_ok ''index.html''"
  by (simp add: segment_ok_def)

section \<open>Fonts: what getFontUrl and ensureFont do\<close>

lemma split_on_first:
  "(case split_on d s of [] \<Rightarrow> [] | first # _ \<Rightarrow> first) = takeWhile (\<lambda>c. c \<noteq> d) s"
  by (induction s) (auto split: list.splits)

lemma getFontUrl_cases:
  "getFontUrl cfg =
     (if truthy (props cfg ''fontUrl'') then props cfg ''fontUrl''
      else if \<not> truthy (props cfg ''fontFamily'') then None
      else if trim (takeWhile (\<lambda>c. c \<noteq> CHR '','') (display (props cfg ''fontFamily''))) = [] then None
      else Some (''https://fonts.googleapis.com/css2?family=''
                 @ encodeURIComponent (trim (takeWhile (\<lambda>c. c \<noteq> CHR '','') (display (props cfg ''fontFamily''))))
                 @ '':wght@400;500;600;700&display=swap''))"
  by (simp add: getFontUrl_def split_on_first Let_def)

lemma getFontUrl_nonempty: "getFontUrl cfg = Some u \<Longrightarrow> u \<noteq> []"
  by (auto simp: getFontUrl_cases truthy_def split: if_splits option.splits)

lemma ensureFont_links:
  "font_links (ensureFont cfg b) =
     (case getFontUrl cfg of None \<Rightarrow> font_links b | Some u \<Rightarrow> u # tl (font_links b))"
  by (auto simp: ensureFont_def dest: getFontUrl_nonempty split: option.splits list.splits)

lemma ensureFont_idem: "ensureFont cfg (ensureFont cfg b) = ensureFont cfg b"
  by (auto simp: ensureFont_def split: option.splits list.splits)

lemma ensureFont_single: "length (font_links b) \<le> Suc 0 \<Longrightarrow> length (font_links (ensureFont cfg b)) \<le> Suc 0"
  by (auto simp: ensureFont_links split: option.splits)

lemma ensureFont_renders:
  "length (font_links b) \<le> Suc 0 \<Longrightarrow>
   length (font_links (foldl (\<lambda>b cfg. ensureFont cfg b) b cfgs)) \<le> Suc 0"
  by (induction cfgs arbitrary: b) (simp_all add: ensureFont_single)

section \<open>Colours: what the two screens put into the style attribute\<close>

lemma nullish_or_else: "nullish explicit (or_else surface page_level) = layered explicit surface page_level"
  by (simp add: nullish_def or_else_def layered_def split: option.splits)

lemma cards_styles:
  "map (card_style \<circ>
     (\<lambda>(idx, btn). \<lparr>data_index = idx, card_style = S btn, card_icon = I btn, card_text = T btn,
                           card_subtitle = U btn\<rparr>)) (enumerate n btns) = map S btns"
  by (induction btns arbitrary: n) simp_all

lemma cards_indices:
  "map (data_index \<circ>
     (\<lambda>(idx, btn). \<lparr>data_index = idx, card_style = S btn, card_icon = I btn, card_text = T btn,
                           card_subtitle = U btn\<rparr>)) (enumerate n btns) = [n..<n + length btns]"
  by (induction btns arbitrary: n) (simp_all add: upt_rec)

lemma renderButtonsPage_cards:
  assumes "buttons cfg = Some btns"
  shows "\<exists>v b'. renderButtonsPage page cfg qs b = (Normal (), b') \<and> app b' = ButtonsPage v \<and>
           map card_style (cards v) =
             map (\<lambda>btn. buildStyleVars
                     (layered (btn ''backgroundColor'') (props cfg ''pageButtonBackgroundColor'') (props cfg ''buttonBackgroundColor''))
                     (layered (btn ''textColor'') (props cfg ''pageButtonTextColor'') (props cfg ''buttonTextColor'')))
               btns \<and>
           map data_index (cards v) = [0..<length btns]"
  using assms
  by (simp add: renderButtonsPage_def Let_def nullish_or_else cards_styles cards_indices)

lemma renderImagePage_style:
  assumes "buttons cfg = Some btns" "i < length btns"
    and "renderImagePage page cfg (Finite i) qs b = (Normal (), b')"
  shows "\<exists>v. app b' = ImagePage v \<and>
           vars_style v =
             buildStyleVars
               (layered ((btns ! i) ''backgroundColor'') (props cfg ''imageButtonBackgroundColor'') (props cfg ''buttonBackgroundColor''))
               (layered ((btns ! i) ''textColor'') (props cfg ''imageButtonTextColor'') (props cfg ''buttonTextColor''))"
  using assms
  by (auto simp: renderImagePage_def lookup_button_def Let_def nullish_or_else
      split: option.splits completion.splits)

lemma renderImagePage_renders:
  assumes "buttons cfg = Some btns" "i < length btns"
    and "(btns ! i) ''link'' = Some url" "finalLink b url qs = Normal link"
  shows "\<exists>v b'. renderImagePage page cfg (Finite i) qs b = (Normal (), b') \<and> app b' = ImagePage v \<and>
           href v = link \<and>
           vars_style v =
             buildStyleVars
               (layered ((btns ! i) ''backgroundColor'') (props cfg ''imageButtonBackgroundColor'') (props cfg ''buttonBackgroundColor''))
               (layered ((btns ! i) ''textColor'') (props cfg ''imageButtonTextColor'') (props cfg ''buttonTextColor''))"
  using assms
  by (simp add: renderImagePage_def lookup_button_def Let_def nullish_or_else)

lemma buildStyleVars_empty: "buildStyleVars bg tx = [] \<longleftrightarrow> \<not> truthy bg \<and> \<not> truthy tx"
  by (auto simp: buildStyleVars_def when_truthy_def truthy_def Let_def split: option.splits)

lemma buildStyleVars_forms:
  "buildStyleVars bg tx =
     (if truthy bg then
        (if truthy tx
         then ('' style='' @ [CHR 0x22]) @ (''--btn-bg: '' @ display bg) @ (''; '' @ (''--btn-text: '' @ display tx) @ [CHR 0x22])
         else ('' style='' @ [CHR 0x22]) @ (''--btn-bg: '' @ display bg) @ [CHR 0x22])
      else
        (if truthy tx
         then ('' style='' @ [CHR 0x22]) @ (''--btn-text: '' @ display tx) @ [CHR 0x22]
         else []))"
  by (simp add: buildStyleVars_def when_truthy_def truthy_def display_def Let_def split: option.split)

lemma buildStyleVars_background:
  assumes "truthy bg"
  shows "sublist (''--btn-bg: '' @ display bg) (buildStyleVars bg tx)"
proof cases
  assume "truthy tx"
  with assms show ?thesis
    by (simp only: buildStyleVars_forms if_True sublist_appendI)
next
  assume "\<not> truthy tx"
  with assms show ?thesis
    by (simp only: buildStyleVars_forms if_True if_False sublist_appendI)
qed

lemma buildStyleVars_text:
  assumes "truthy tx"
  shows "sublist (''--btn-text: '' @ display tx) (buildStyleVars bg tx)"
proof cases
  assume "truthy bg"
  have "sublist (''--btn-text: '' @ display tx)
          ((('' style='' @ [CHR 0x22]) @ (''--btn-bg: '' @ display bg) @ ''; '') @ (''--btn-text: '' @ display tx) @ [CHR 0x22])"
    by (rule sublist_appendI)
  with assms \<open>truthy bg\<close> show ?thesis
    by (simp only: buildStyleVars_forms if_True append_assoc)
next
  assume "\<not> truthy bg"
  with assms show ?thesis
    by (simp only: buildStyleVars_forms if_True if_False sublist_appendI)
qed

section \<open>Rendering and init\<close>

lemma renderButtonsPage_no_buttons:
  assumes "buttons cfg = None"
  shows "fst (renderButtonsPage page cfg qs b) = Throw TypeError"
    and "app (snd (renderButtonsPage page cfg qs b)) = app b"
  using assms
  by (simp_all add: renderButtonsPage_def Let_def updatePageMeta_def ensureFont_def
      split: option.split list.split)

lemma renderError_app: "app (renderError t m b) = ErrorPage t m"
  by (simp add: renderError_def)

lemma renderError_eq:
  "renderError t m b =
     b\<lparr>doc_title := (if t \<noteq> [] then t else doc_title b),
       meta_description := map_option (\<lambda>_. m) (meta_description b),
       app := ErrorPage t m\<rparr>"
  by (simp add: renderError_def updatePageMeta_def split: option.split)

lemma parseURL_pagePath_nonempty: "pagePath (parseURL l) = Some p \<Longrightarrow> p \<noteq> []"
proof -
  assume a: "pagePath (parseURL l) = Some p"
  then obtain idx where "match_path (pathname l) = Some (p, idx)"
    by (auto simp: parseURL_def Let_def split: option.splits if_splits)
  from match_path_Some [OF this] show ?thesis by (simp add: segment_ok_def)
qed

lemma init_recognised:
  assumes "handleRedirect resolve b = (Normal (), b1)" "pagePath (parseURL (loc b1)) = Some p"
  shows "init resolve fetch b =
     (case load_and_render fetch p (parseURL (loc b1)) b1 of
        (Throw e, b2) \<Rightarrow> (Normal (), renderError title_page_missing [Str page_not_found_prefix, Str p] b2)
      | (Unmodelled, b2) \<Rightarrow> (Unmodelled, b2)
      | (Normal v, b2) \<Rightarrow> (Normal (), b2))"
  using assms parseURL_pagePath_nonempty [OF assms(2)]
  by (simp add: init_def Let_def truthy_def display_def split: prod.split completion.split)

lemma init_unrecognised:
  assumes "handleRedirect resolve b = (Normal (), b1)" "pagePath (parseURL (loc b1)) = None"
  shows "init resolve fetch b = (Normal (), renderError ''404'' [Str title_page_missing] b1)"
  using assms by (simp add: init_def Let_def truthy_def)

lemma init_throws:
  assumes "fst (init resolve fetch b) = Throw e"
  shows "fst (handleRedirect resolve b) = Throw e"
proof -
  obtain c b1 where h: "handleRedirect resolve b = (c, b1)" by (metis surj_pair)
  show ?thesis
  proof (cases c)
    case (Normal u)
    show ?thesis
    proof (cases rule: option.exhaust [of "pagePath (parseURL (loc b1))"])
      case None
      with h Normal assms show ?thesis by (simp add: init_unrecognised)
    next
      case (Some p)
      obtain c2 b2 where l: "load_and_render fetch p (parseURL (loc b1)) b1 = (c2, b2)"
        by (metis surj_pair)
      from h Normal Some have "handleRedirect resolve b = (Normal (), b1)" by simp
      from init_recognised [OF this Some, of fetch] l assms show ?thesis
        by (cases c2) simp_all
    qed
  next
    case (Throw x)
    with h assms show ?thesis by (simp add: init_def)
  next
    case Unmodelled
    with h assms show ?thesis by (simp add: init_def)
  qed
qed

lemma finalLink_modelled: "finalLink b url qs \<noteq> Unmodelled"
  by (simp add: finalLink_def split: completion.split option.split)

lemma renderImagePage_modelled: "fst (renderImagePage page cfg idx qs b) \<noteq> Unmodelled"
  using finalLink_modelled
  by (auto simp: renderImagePage_def Let_def split: option.split completion.split)

lemma renderButtonsPage_modelled: "fst (renderButtonsPage page cfg qs b) \<noteq> Unmodelled"
  by (simp add: renderButtonsPage_def Let_def split: option.split)

lemma load_and_render_modelled: "fst (load_and_render fetch p r b) \<noteq> Unmodelled"
  by (simp add: load_and_render_def loadConfig_def renderImagePage_modelled renderButtonsPage_modelled
      split: response.split option.split)

lemma init_returns:
  assumes "handleRedirect resolve b = (Normal (), b1)"
  shows "fst (init resolve fetch b) = Normal ()"
proof (cases rule: option.exhaust [of "pagePath (parseURL (loc b1))"])
  case None
  with assms show ?thesis by (simp add: init_unrecognised)
next
  case (Some p)
  obtain c2 b2 where l: "load_and_render fetch p (parseURL (loc b1)) b1 = (c2, b2)"
    by (metis surj_pair)
  with load_and_render_modelled [of fetch p "parseURL (loc b1)" b1] have "c2 \<noteq> Unmodelled"
    by simp
  with init_recognised [OF assms Some, of fetch] l show ?thesis
    by (cases c2) simp_all
qed

lemma init_modelled: "fst (init resolve fetch b) \<noteq> Unmodelled"
proof -
  obtain c b1 where h: "handleRedirect resolve b = (c, b1)" by (metis surj_pair)
  have "c \<noteq> Unmodelled"
    using h by (auto simp: handleRedirect_def split: if_splits option.splits)
  then show ?thesis
  proof (cases c)
    case (Normal u)
    with h have "handleRedirect resolve b = (Normal (), b1)" by simp
    from init_returns [OF this] show ?thesis by simp
  next
    case (Throw e)
    with h show ?thesis by (simp add: init_def)
  qed simp
qed

lemma renderImagePage_engine_rejects:
  assumes "buttons cfg = Some btns" "i < length btns" "(btns ! i) ''link'' = Some url"
    and "replaceQueryPlaceholder url qs = Unmodelled" "regexp_engine b url qs = None"
  shows "renderImagePage page cfg (Finite i) qs b = (Throw SyntaxError, b)"
  using assms by (simp add: renderImagePage_def lookup_button_def Let_def finalLink_def)

lemma load_and_render_failed_load:
  assumes "fetch (basePath @ ''/'' @ p @ ''/config.json'') \<in> {NetworkError, NotOk, Unparsable}"
  shows "\<exists>e. load_and_render fetch p r b1 = (Throw e, b1)"
  using assms by (auto simp: load_and_render_def loadConfig_def)

lemma load_and_render_document:
  assumes "fetch (basePath @ ''/'' @ p @ ''/config.json'') = Document cfg"
  shows "load_and_render fetch p r b1 =
           (case imageIndex r of
              Some idx \<Rightarrow> renderImagePage p cfg idx (queryString r) b1
            | None \<Rightarrow> renderButtonsPage p cfg (queryString r) b1)"
  using assms by (simp add: load_and_render_def loadConfig_def)

section \<open>Claims about placeholder substitution\<close>

text \<open>
  Claim C1, as amended. The claim says that a repeated key is substituted with the value
  of its last occurrence. \<open>forEach\<close> visits the pairs in the order of the query
  string and the first visit already replaces every \<open>{key}\<close>, so it is the first
  occurrence that is substituted: for every link template whose braces delimit
  placeholders, and every query string without braces and \<open>$\<close> whose parameter
  names have no regular-expression syntax and whose decoded values have no braces and no
  \<open>$\<close>, substitution returns the template with \<open>{query}\<close> replaced by the raw
  query string and every other \<open>{key}\<close> replaced by the decoded value of the first
  occurrence of the key (placeholders without a parameter stay). The second part says
  that the value \<open>map_of\<close> finds for a key is the one of its first pair.
\<close>

theorem first_occurrence_wins:
  assumes "well_formed t" "plain qs"
    and "\<forall>(k, v) \<in> set (URLSearchParams qs). literal_key k \<and> plain v"
  shows "replaceQueryPlaceholder (flatten t) qs =
           Normal (concat (map (fill qs (map_of (URLSearchParams qs))) t)) \<and>
         (\<forall>earlier k v later.
            URLSearchParams qs = earlier @ (k, v) # later \<and> k \<notin> fst ` set earlier \<longrightarrow>
              map_of (URLSearchParams qs) k = Some v)"
proof -
  have first_pair: "\<forall>earlier k v later.
            URLSearchParams qs = earlier @ (k, v) # later \<and> k \<notin> fst ` set earlier \<longrightarrow>
              map_of (URLSearchParams qs) k = Some v"
  proof (intro allI impI)
    fix earlier k v later
    assume a: "URLSearchParams qs = earlier @ (k, v) # later \<and> k \<notin> fst ` set earlier"
    then have "map_of earlier k = None" by (simp add: map_of_eq_None_iff)
    with a show "map_of (URLSearchParams qs) k = Some v" by (simp add: map_add_def)
  qed
  let ?ps = "URLSearchParams qs"
  let ?pts = "map (\<lambda>(k, v). (k, [Text v])) ?ps"
  have bf: "brace_free ''query''" by (simp add: brace_free_def)
  have q: "well_formed [Text qs]" "CHR ''$'' \<notin> set (flatten [Text qs])"
    using assms(2) by (simp_all add: plain_def)
  have first: "replace_global ''{query}'' qs [] (flatten t) = flatten (expand ''query'' [Text qs] t)"
    using replace_global_flatten [OF bf q(2) assms(1), of "[]"] by simp
  have wf: "well_formed (expand ''query'' [Text qs] t)"
    using well_formed_expand [OF assms(1) q(1)] .
  have pts: "\<forall>(k, v) \<in> set ?pts. literal_key k \<and> well_formed v \<and> CHR ''$'' \<notin> set (flatten v)"
    using assms(3) by (auto simp: plain_def)
  have same: "map ((\<lambda>(k, v). (k, flatten v)) \<circ> (\<lambda>(k, v). (k, [Text v]))) ?ps = ?ps"
    by (rule map_idI) auto
  have loop: "forEach_param ?ps (flatten (expand ''query'' [Text qs] t)) =
              Normal (concat (map (fill qs (map_of ?ps)) t))"
    using forEach_param_expand [OF wf pts]
    by (simp only: map_map same foldl_expand_texts fill_expand_query)
  have result: "replaceQueryPlaceholder (flatten t) qs =
           Normal (concat (map (fill qs (map_of (URLSearchParams qs))) t))"
  proof cases
    assume "qs = []"
    then show ?thesis
      using first fill_expand_query [of Map.empty "[]" t]
      by (simp add: replaceQueryPlaceholder_def URLSearchParams_empty fill_keys_empty)
  next
    assume "qs \<noteq> []"
    with first loop show ?thesis by (simp add: replaceQueryPlaceholder_def)
  qed
  show ?thesis
    by (rule conjI [OF result first_pair])
qed

theorem first_occurrence_wins_witness:
  "replaceQueryPlaceholder ''https://x.com?r={ref}&all={query}'' ''ref=abc&ref=xyz'' =
   Normal ''https://x.com?r=abc&all=ref=abc&ref=xyz''"
proof -
  let ?t = "[Text ''https://x.com?r='', Placeholder ''ref'', Text ''&all='', Placeholder ''query'']"
  have ps: "URLSearchParams ''ref=abc&ref=xyz'' = [(''ref'', ''abc''), (''ref'', ''xyz'')]"
    by code_simp
  have h1: "well_formed ?t" by (simp add: brace_free_def)
  have h2: "plain ''ref=abc&ref=xyz''" by (simp add: plain_def brace_free_def)
  have h3: "\<forall>(k, v) \<in> set (URLSearchParams ''ref=abc&ref=xyz''). literal_key k \<and> plain v"
    unfolding ps by (simp add: literal_key_def plain_def brace_free_def syntax_characters_def)
  show ?thesis
    using first_occurrence_wins [OF h1 h2 h3, THEN conjunct1] by (simp add: ps)
qed

text \<open>
  The claim as stated fails on \<open>a=1&a=2\<close>: the last value of \<open>a\<close> is
  \<open>2\<close>, and \<open>{a}\<close> becomes \<open>1\<close>.
\<close>

theorem last_occurrence_counterexample:
  "URLSearchParams ''a=1&a=2'' = [(''a'', ''1''), (''a'', ''2'')] \<and>
   replaceQueryPlaceholder ''{a}'' ''a=1&a=2'' = Normal ''1''"
  by code_simp

text \<open>
  Claim C5, as amended. \<open>{query}\<close> is replaced first, by the raw query string;
  then the parameters are substituted one after the other, in the order of the query
  string, each over the result of the one before. So a decoded value that holds
  \<open>{otherKey}\<close> is expanded again when \<open>otherKey\<close> comes later in the query
  string, and only a later parameter named \<open>query\<close> can touch a \<open>{query}\<close>
  that a value or the query string itself brought in. Stated for templates, query
  strings and decoded values whose braces delimit placeholders (\<open>tq\<close> and the
  second components of \<open>pts\<close> are the query string and the values, read as
  templates), without \<open>$\<close>, and parameter names without regular-expression syntax.
\<close>

theorem sequential_expansion:
  assumes "well_formed t" "well_formed tq" "qs = flatten tq"
    and "CHR ''$'' \<notin> set qs"
    and "URLSearchParams qs = map (\<lambda>(k, v). (k, flatten v)) pts"
    and "\<forall>(k, v) \<in> set pts. literal_key k \<and> well_formed v \<and> CHR ''$'' \<notin> set (flatten v)"
  shows "replaceQueryPlaceholder (flatten t) qs =
         Normal (flatten (foldl (\<lambda>t (k, v). expand k v t) (expand ''query'' tq t) pts))"
proof -
  have bf: "brace_free ''query''" by (simp add: brace_free_def)
  have first: "replace_global ''{query}'' qs [] (flatten t) = flatten (expand ''query'' tq t)"
    using replace_global_flatten [OF bf _ assms(1), of tq "[]"] assms(3,4) by simp
  have wf: "well_formed (expand ''query'' tq t)"
    using well_formed_expand [OF assms(1,2)] .
  show ?thesis
  proof cases
    assume "qs = []"
    with assms(5) have "pts = []" by (simp add: URLSearchParams_empty)
    with first \<open>qs = []\<close> show ?thesis by (simp add: replaceQueryPlaceholder_def)
  next
    assume "qs \<noteq> []"
    with first forEach_param_expand [OF wf assms(6)] assms(5) show ?thesis
      by (simp add: replaceQueryPlaceholder_def)
  qed
qed

theorem sequential_expansion_witness:
  "replaceQueryPlaceholder ''https://x.com?r={ref}&id={id}'' ''id=7&ref=%7Bid%7D&id=8'' =
   Normal ''https://x.com?r=8&id=7''"
proof -
  let ?t = "[Text ''https://x.com?r='', Placeholder ''ref'', Text ''&id='', Placeholder ''id'']"
  let ?q = "''id=7&ref=%7Bid%7D&id=8''"
  let ?pts = "[(''id'', [Text ''7'']), (''ref'', [Placeholder ''id'']), (''id'', [Text ''8''])]"
  have h1: "well_formed ?t" by (simp add: brace_free_def)
  have h2: "well_formed [Text ?q]" by (simp add: brace_free_def)
  have h3: "?q = flatten [Text ?q]" by simp
  have h4: "CHR ''$'' \<notin> set ?q" by simp
  have h5: "URLSearchParams ?q = map (\<lambda>(k, v). (k, flatten v)) ?pts"
    by code_simp
  have h6: "\<forall>(k, v) \<in> set ?pts. literal_key k \<and> well_formed v \<and> CHR ''$'' \<notin> set (flatten v)"
    by (simp add: literal_key_def brace_free_def syntax_characters_def)
  show ?thesis
    using sequential_expansion [OF h1 h2 h3 h4 h5 h6] by simp
qed

text \<open>
  The claim as stated fails on \<open>a=%7Bb%7D&b=2\<close>: the decoded value of \<open>a\<close>
  is \<open>{b}\<close>, and the substitution of \<open>b\<close> that follows expands it.
\<close>

theorem reexpansion_counterexample:
  "URLSearchParams ''a=%7Bb%7D&b=2'' = [(''a'', ''{b}''), (''b'', ''2'')] \<and>
   replaceQueryPlaceholder ''{a}'' ''a=%7Bb%7D&b=2'' = Normal ''2''"
  by code_simp

text \<open>
  Claim C6 says that a link without \<open>{...}\<close> comes back unchanged for every query
  string, without a fault. The parameter name is put into a regular expression
  unescaped: for the query string \<open>(=1\<close> the pattern is \<open>\{(\}\<close>, and the
  call throws.
\<close>

theorem unescaped_key_throws:
  "replaceQueryPlaceholder ''https://example.com'' ''(=1'' = Throw SyntaxError"
  by code_simp

text \<open>
  What the claim says does hold for the query strings whose parameter names have no
  regular-expression syntax: a link without a \<open>{...}\<close> token comes back
  unchanged, whatever the values are.
\<close>

lemma replace_global_no_match:
  "\<forall>rest. suffix rest s \<longrightarrow> \<not> prefix pat rest \<Longrightarrow> replace_global pat v pre s = s"
proof (induction s arbitrary: pre)
  case Nil
  show ?case by simp
next
  case (Cons c cs)
  from Cons.prems have here: "\<not> prefix pat (c # cs)" by blast
  from Cons.prems have "\<forall>rest. suffix rest cs \<longrightarrow> \<not> prefix pat rest"
    by (meson suffix_Cons)
  from Cons.IH [OF this] here show ?case by simp
qed

lemma dropWhile_keeps_tail: "\<not> P x \<Longrightarrow> set (x # r) \<subseteq> set (dropWhile P (a @ x # r))"
  by (induction a) auto

lemma has_token_intro: "has_token (a @ ''{'' @ k @ ''}'' @ c)"
  using dropWhile_keeps_tail [of "\<lambda>c. c \<noteq> CHR ''{''" "CHR ''{''" "k @ ''}'' @ c" a]
  by (auto simp: has_token_def)

lemma no_token_no_match:
  assumes "\<not> has_token url"
  shows "\<forall>rest. suffix rest url \<longrightarrow> \<not> prefix (''{'' @ k @ ''}'') rest"
proof (intro allI impI notI)
  fix rest
  assume "suffix rest url" "prefix (''{'' @ k @ ''}'') rest"
  then obtain a c where "url = a @ rest" "rest = (''{'' @ k @ ''}'') @ c"
    by (auto simp: suffix_def prefix_def)
  then have "url = a @ ''{'' @ k @ ''}'' @ c" by simp
  with assms has_token_intro [of a k c] show False by simp
qed

lemma forEach_param_no_token:
  assumes "\<not> has_token url" "\<forall>(k, v) \<in> set ps. literal_key k"
  shows "forEach_param ps url = Normal url"
  using assms(2)
proof (induction ps)
  case Nil
  show ?case by simp
next
  case (Cons p ps)
  obtain k v where p: "p = (k, v)" by (cases p)
  with Cons.prems have k: "literal_key k" and rest: "\<forall>(k, v) \<in> set ps. literal_key k" by auto
  have "replace_global (''{'' @ k @ ''}'') v [] url = url"
    using replace_global_no_match [OF no_token_no_match [OF assms(1)]] .
  with Cons.IH [OF rest] show ?case
    by (simp add: p literal_key_placeholder [OF k])
qed

lemma link_without_placeholder_unchanged:
  assumes "\<not> has_token url" "\<forall>(k, v) \<in> set (URLSearchParams qs). literal_key k"
  shows "replaceQueryPlaceholder url qs = Normal url"
proof -
  have "replace_global ''{query}'' qs [] url = url"
    using replace_global_no_match [OF no_token_no_match [OF assms(1), of "''query''"]] by simp
  with forEach_param_no_token [OF assms] show ?thesis
    by (simp add: replaceQueryPlaceholder_def)
qed

section \<open>Claims about the router\<close>

text \<open>
  Claim C2, as amended. \<open>parseURL\<close> recognises exactly the two shapes
  \<open>/{segment}\<close> and \<open>/{segment}/image/{digits}\<close>: every other path, and
  the segment \<open>index.html\<close> in either shape, gives no page; the page shape gives
  no image index; the query string returned is the query component of the location, the
  empty string when there is none. The image index is the integer the digits denote
  whenever that integer is at most \<open>2^53\<close>; the claim says so for every digit
  string, but \<open>parseInt\<close> returns a double.
\<close>

theorem parseURL_routes:
  "queryString (parseURL l) = (case query l of None \<Rightarrow> [] | Some q \<Rightarrow> q) \<and>
   (pagePath (parseURL l) = None \<longleftrightarrow>
      \<not> (\<exists>p. segment_ok p \<and> p \<noteq> ''index.html'' \<and>
             (pathname l = page_shape p \<or> (\<exists>ds. digits_ok ds \<and> pathname l = image_shape p ds)))) \<and>
   (\<forall>ds. pathname l = page_shape ''index.html'' \<or> pathname l = image_shape ''index.html'' ds \<longrightarrow>
      pagePath (parseURL l) = None) \<and>
   (\<forall>p. segment_ok p \<and> p \<noteq> ''index.html'' \<and> pathname l = page_shape p \<longrightarrow>
      pagePath (parseURL l) = Some p \<and> imageIndex (parseURL l) = None) \<and>
   (\<forall>p ds. segment_ok p \<and> p \<noteq> ''index.html'' \<and> digits_ok ds \<and> pathname l = image_shape p ds \<longrightarrow>
      pagePath (parseURL l) = Some p \<and>
      (digits_value ds \<le> 2 ^ 53 \<longrightarrow> imageIndex (parseURL l) = Some (Finite (digits_value ds))))"
proof (intro conjI allI impI)
  show "queryString (parseURL l) = (case query l of None \<Rightarrow> [] | Some q \<Rightarrow> q)"
    by (simp add: parseURL_def Let_def search_query split: option.split prod.split)
next
  show "pagePath (parseURL l) = None \<longleftrightarrow>
      \<not> (\<exists>p. segment_ok p \<and> p \<noteq> ''index.html'' \<and>
             (pathname l = page_shape p \<or> (\<exists>ds. digits_ok ds \<and> pathname l = image_shape p ds)))"
  proof
    assume none: "pagePath (parseURL l) = None"
    show "\<not> (\<exists>p. segment_ok p \<and> p \<noteq> ''index.html'' \<and>
             (pathname l = page_shape p \<or> (\<exists>ds. digits_ok ds \<and> pathname l = image_shape p ds)))"
    proof
      assume "\<exists>p. segment_ok p \<and> p \<noteq> ''index.html'' \<and>
             (pathname l = page_shape p \<or> (\<exists>ds. digits_ok ds \<and> pathname l = image_shape p ds))"
      then obtain p where p: "segment_ok p" "p \<noteq> ''index.html''"
        and shape: "pathname l = page_shape p \<or> (\<exists>ds. digits_ok ds \<and> pathname l = image_shape p ds)"
        by blast
      from shape p(1) have "\<exists>idx. match_path (pathname l) = Some (p, idx)"
        by (auto simp: match_path_page match_path_image)
      with p(2) have "pagePath (parseURL l) = Some p"
        by (auto simp: parseURL_def Let_def)
      with none show False by simp
    qed
  next
    assume no: "\<not> (\<exists>p. segment_ok p \<and> p \<noteq> ''index.html'' \<and>
             (pathname l = page_shape p \<or> (\<exists>ds. digits_ok ds \<and> pathname l = image_shape p ds)))"
    show "pagePath (parseURL l) = None"
    proof (cases rule: option.exhaust [of "match_path (pathname l)"])
      case None
      then show ?thesis by (simp add: parseURL_def Let_def)
    next
      case (Some m)
      obtain seg idx where m: "m = (seg, idx)" by (cases m)
      from match_path_Some [of "pathname l" seg idx] Some m
      have ok: "segment_ok seg"
        and shape: "case idx of None \<Rightarrow> pathname l = page_shape seg
                    | Some ds \<Rightarrow> digits_ok ds \<and> pathname l = image_shape seg ds"
        by simp_all
      from shape have "pathname l = page_shape seg \<or> (\<exists>ds. digits_ok ds \<and> pathname l = image_shape seg ds)"
        by (cases idx) auto
      with no ok have "seg = ''index.html''" by blast
      with Some m show ?thesis by (simp add: parseURL_def Let_def)
    qed
  qed
next
  fix ds
  assume "pathname l = page_shape ''index.html'' \<or> pathname l = image_shape ''index.html'' ds"
  then have first: "takeWhile (\<lambda>x. x \<noteq> CHR ''/'') (tl (pathname l)) = ''index.html''"
    using first_segment_page [OF index_html_ok] first_segment_image [OF index_html_ok, of ds] by auto
  show "pagePath (parseURL l) = None"
  proof (cases rule: option.exhaust [of "match_path (pathname l)"])
    case None
    then show ?thesis by (simp add: parseURL_def Let_def)
  next
    case (Some m)
    obtain seg idx where m: "m = (seg, idx)" by (cases m)
    from match_path_shape [of "pathname l" seg idx] Some m first have "seg = ''index.html''" by simp
    with Some m show ?thesis by (simp add: parseURL_def Let_def)
  qed
next
  fix p
  assume "segment_ok p \<and> p \<noteq> ''index.html'' \<and> pathname l = page_shape p"
  then show "pagePath (parseURL l) = Some p" "imageIndex (parseURL l) = None"
    by (simp_all add: parseURL_def Let_def match_path_page)
next
  fix p ds
  assume a: "segment_ok p \<and> p \<noteq> ''index.html'' \<and> digits_ok ds \<and> pathname l = image_shape p ds"
  then show "pagePath (parseURL l) = Some p"
    by (simp add: parseURL_def Let_def match_path_image)
  assume "digits_value ds \<le> 2 ^ 53"
  with a show "imageIndex (parseURL l) = Some (Finite (digits_value ds))"
    by (simp add: parseURL_def Let_def match_path_image parseInt_exact)
qed

theorem parseURL_routes_witness:
  "parseURL \<lparr>pathname = ''/demo/image/12'', query = Some ''ref=abc''\<rparr> =
   \<lparr>pagePath = Some ''demo'', imageIndex = Some (Finite 12), queryString = ''ref=abc''\<rparr>"
proof -
  let ?l = "\<lparr>pathname = ''/demo/image/12'', query = Some ''ref=abc''\<rparr>"
  have seg: "segment_ok ''demo''" "''demo'' \<noteq> ''index.html''" by (simp_all add: segment_ok_def)
  have ds: "digits_ok ''12''" by (simp add: digits_ok_def is_digit_def)
  have path: "pathname ?l = image_shape ''demo'' ''12''" by (simp add: image_shape_def)
  have val: "digits_value ''12'' = 12" by (simp add: digits_value_def)
  have small: "digits_value ''12'' \<le> 2 ^ 53" by (simp add: val)
  from parseURL_routes [of ?l] seg ds path small
  have "queryString (parseURL ?l) = ''ref=abc''" "pagePath (parseURL ?l) = Some ''demo''"
    "imageIndex (parseURL ?l) = Some (Finite (digits_value ''12''))"
    by auto
  then show ?thesis by (intro route.equality) (simp_all add: val)
qed

text \<open>
  The claim as stated fails at the index \<open>9007199254740993\<close>, which is
  \<open>2^53 + 1\<close>: the Number returned is \<open>9007199254740992\<close>.
\<close>

theorem parseURL_large_index_counterexample:
  "digits_value ''9007199254740993'' = 9007199254740993 \<and>
   parseURL \<lparr>pathname = ''/demo/image/9007199254740993'', query = None\<rparr> =
   \<lparr>pagePath = Some ''demo'', imageIndex = Some (Finite 9007199254740992), queryString = []\<rparr>"
proof -
  have val: "digits_value ''9007199254740993'' = 9007199254740993"
    by (simp add: digits_value_def)
  have len: "bit_length 9007199254740993 = 54"
    by (simp add: bit_length.simps)
  have round: "round_to_double 9007199254740993 = 9007199254740992"
    unfolding round_to_double_def len by (simp add: Let_def)
  have "parseInt ''9007199254740993'' = Finite 9007199254740992"
    by (simp add: parseInt_def to_number_def val round)
  then show ?thesis
    by (simp add: val parseURL_def match_path_def search_def is_digit_def Let_def)
qed

section \<open>Claims about fonts\<close>

text \<open>
  Claim C8, as amended. A \<open>fontUrl\<close> that is present and not empty is used as it
  is. Otherwise a \<open>fontFamily\<close> gives the stylesheet URL of its first
  comma-separated name, trimmed of white space and percent-encoded, with the weights
  400, 500, 600 and 700, when that trimmed name is not empty; the claim derives a URL
  from every \<open>fontFamily\<close> that is present, and the code returns no URL when the
  first name is empty: then, as with neither field, there is no URL and
  \<open>ensureFont\<close> changes nothing. Applying a configuration twice is applying it once, a document with
  at most one font link has exactly the resolved one afterwards, and no sequence of
  renders takes a document with at most one font link to one with more.
\<close>

theorem font_resolution:
  "(truthy (props cfg ''fontUrl'') \<longrightarrow> getFontUrl cfg = props cfg ''fontUrl'') \<and>
   (\<forall>family name. \<not> truthy (props cfg ''fontUrl'') \<and> props cfg ''fontFamily'' = Some family
        \<and> name = trim (takeWhile (\<lambda>c. c \<noteq> CHR '','') family) \<and> name \<noteq> [] \<longrightarrow>
      getFontUrl cfg =
        Some (''https://fonts.googleapis.com/css2?family='' @ encodeURIComponent name
              @ '':wght@400;500;600;700&display=swap'')) \<and>
   (\<forall>family. \<not> truthy (props cfg ''fontUrl'') \<and> props cfg ''fontFamily'' = Some family
        \<and> trim (takeWhile (\<lambda>c. c \<noteq> CHR '','') family) = [] \<longrightarrow>
      getFontUrl cfg = None \<and> ensureFont cfg b = b) \<and>
   (\<not> truthy (props cfg ''fontUrl'') \<and> \<not> truthy (props cfg ''fontFamily'') \<longrightarrow>
      getFontUrl cfg = None \<and> ensureFont cfg b = b) \<and>
   ensureFont cfg (ensureFont cfg b) = ensureFont cfg b \<and>
   (\<forall>u. getFontUrl cfg = Some u \<and> length (font_links b) \<le> 1 \<longrightarrow> font_links (ensureFont cfg b) = [u]) \<and>
   (\<forall>cfgs. length (font_links b) \<le> 1 \<longrightarrow>
      length (font_links (foldl (\<lambda>b cfg. ensureFont cfg b) b cfgs)) \<le> 1)"
proof (intro conjI allI impI)
  assume "truthy (props cfg ''fontUrl'')"
  then show "getFontUrl cfg = props cfg ''fontUrl''" by (simp add: getFontUrl_cases)
next
  fix family name
  assume "\<not> truthy (props cfg ''fontUrl'') \<and> props cfg ''fontFamily'' = Some family
        \<and> name = trim (takeWhile (\<lambda>c. c \<noteq> CHR '','') family) \<and> name \<noteq> []"
  then have url: "\<not> truthy (props cfg ''fontUrl'')" and fam: "props cfg ''fontFamily'' = Some family"
    and name: "trim (takeWhile (\<lambda>c. c \<noteq> CHR '','') family) = name" "name \<noteq> []"
    by blast+
  from name have "family \<noteq> []" by (auto simp: trim_def)
  with fam have "truthy (props cfg ''fontFamily'')" by (simp add: truthy_def)
  with url fam name show "getFontUrl cfg =
        Some (''https://fonts.googleapis.com/css2?family='' @ encodeURIComponent name
              @ '':wght@400;500;600;700&display=swap'')"
    by (simp add: getFontUrl_cases display_def)
next
  fix family
  assume "\<not> truthy (props cfg ''fontUrl'') \<and> props cfg ''fontFamily'' = Some family
        \<and> trim (takeWhile (\<lambda>c. c \<noteq> CHR '','') family) = []"
  then show "getFontUrl cfg = None" by (simp add: getFontUrl_cases display_def)
  then show "ensureFont cfg b = b" by (simp add: ensureFont_def)
next
  assume a: "\<not> truthy (props cfg ''fontUrl'') \<and> \<not> truthy (props cfg ''fontFamily'')"
  then show "getFontUrl cfg = None" by (simp add: getFontUrl_cases)
  then show "ensureFont cfg b = b" by (simp add: ensureFont_def)
next
  show "ensureFont cfg (ensureFont cfg b) = ensureFont cfg b" by (rule ensureFont_idem)
next
  fix u
  assume "getFontUrl cfg = Some u \<and> length (font_links b) \<le> 1"
  then show "font_links (ensureFont cfg b) = [u]"
    by (cases rule: list.exhaust [of "font_links b"]) (auto simp: ensureFont_links)
next
  fix cfgs
  assume "length (font_links b) \<le> 1"
  then show "length (font_links (foldl (\<lambda>b cfg. ensureFont cfg b) b cfgs)) \<le> 1"
    using ensureFont_renders [of b cfgs] by simp
qed

theorem font_resolution_witness:
  "getFontUrl \<lparr>props = [''fontFamily'' \<mapsto> ''Noto Sans SC, sans-serif''], buttons = None\<rparr> =
     Some ''https://fonts.googleapis.com/css2?family=Noto%20Sans%20SC:wght@400;500;600;700&display=swap'' \<and>
   font_links
     (ensureFont \<lparr>props = [''fontFamily'' \<mapsto> ''Noto Sans SC, sans-serif''], buttons = None\<rparr>
       (ensureFont \<lparr>props = [''fontFamily'' \<mapsto> ''Noto Sans SC, sans-serif''], buttons = None\<rparr>
         \<lparr>doc_title = [], meta_description = None, font_links = [], app = Blank,
          scroll_behavior = False, loc = \<lparr>pathname = ''/demo'', query = None\<rparr>, redirect_path = None,
      regexp_engine = (\<lambda>url qs. None)\<rparr>)) =
     [''https://fonts.googleapis.com/css2?family=Noto%20Sans%20SC:wght@400;500;600;700&display=swap''] \<and>
   ensureFont \<lparr>props = [''fontFamily'' \<mapsto> '' , serif''], buttons = None\<rparr>
     \<lparr>doc_title = [], meta_description = None, font_links = [''https://example.com/font.css''], app = Blank,
      scroll_behavior = False, loc = \<lparr>pathname = ''/demo'', query = None\<rparr>, redirect_path = None,
      regexp_engine = (\<lambda>url qs. None)\<rparr> =
     \<lparr>doc_title = [], meta_description = None, font_links = [''https://example.com/font.css''], app = Blank,
      scroll_behavior = False, loc = \<lparr>pathname = ''/demo'', query = None\<rparr>, redirect_path = None,
      regexp_engine = (\<lambda>url qs. None)\<rparr>"
proof -
  let ?cfg = "\<lparr>props = [''fontFamily'' \<mapsto> ''Noto Sans SC, sans-serif''], buttons = None\<rparr>"
  let ?b = "\<lparr>doc_title = [], meta_description = None, font_links = [], app = Blank,
          scroll_behavior = False, loc = \<lparr>pathname = ''/demo'', query = None\<rparr>, redirect_path = None,
      regexp_engine = (\<lambda>url qs. None)\<rparr>"
  have url: "\<not> truthy (props ?cfg ''fontUrl'')" by (simp add: truthy_def)
  have fam: "props ?cfg ''fontFamily'' = Some ''Noto Sans SC, sans-serif''" by simp
  have name: "''Noto Sans SC'' = trim (takeWhile (\<lambda>c. c \<noteq> CHR '','') ''Noto Sans SC, sans-serif'')"
    by code_simp
  have enc: "encodeURIComponent ''Noto Sans SC'' = ''Noto%20Sans%20SC''"
    by code_simp
  have links: "length (font_links ?b) \<le> 1" by simp
  note res = font_resolution [of ?cfg ?b]
  from res url fam name have derived: "getFontUrl ?cfg =
      Some (''https://fonts.googleapis.com/css2?family='' @ encodeURIComponent ''Noto Sans SC''
            @ '':wght@400;500;600;700&display=swap'')"
    by blast
  from res derived links have once: "font_links (ensureFont ?cfg ?b) =
      [''https://fonts.googleapis.com/css2?family='' @ encodeURIComponent ''Noto Sans SC''
            @ '':wght@400;500;600;700&display=swap'']"
    by blast
  from res have "ensureFont ?cfg (ensureFont ?cfg ?b) = ensureFont ?cfg ?b" by blast
  with derived once have named: "getFontUrl ?cfg =
     Some ''https://fonts.googleapis.com/css2?family=Noto%20Sans%20SC:wght@400;500;600;700&display=swap'' \<and>
   font_links (ensureFont ?cfg (ensureFont ?cfg ?b)) =
     [''https://fonts.googleapis.com/css2?family=Noto%20Sans%20SC:wght@400;500;600;700&display=swap'']"
    by (simp add: enc)
  let ?cfg' = "\<lparr>props = [''fontFamily'' \<mapsto> '' , serif''], buttons = None\<rparr>"
  let ?b' = "\<lparr>doc_title = [], meta_description = None, font_links = [''https://example.com/font.css''], app = Blank,
      scroll_behavior = False, loc = \<lparr>pathname = ''/demo'', query = None\<rparr>, redirect_path = None,
      regexp_engine = (\<lambda>url qs. None)\<rparr>"
  have url': "\<not> truthy (props ?cfg' ''fontUrl'')" by (simp add: truthy_def)
  have fam': "props ?cfg' ''fontFamily'' = Some '' , serif''" by simp
  have name': "trim (takeWhile (\<lambda>c. c \<noteq> CHR '','') '' , serif'') = []"
    by code_simp
  from font_resolution [of ?cfg' ?b'] url' fam' name' have unnamed: "ensureFont ?cfg' ?b' = ?b'"
    by blast
  show ?thesis by (rule conjI [OF conjunct1 [OF named] conjI [OF conjunct2 [OF named] unnamed]])
qed

text \<open>
  The claim as stated fails for the family list \<open>, serif\<close>: the field is present,
  and no URL is derived.
\<close>

theorem font_family_without_name_counterexample:
  "props \<lparr>props = [''fontFamily'' \<mapsto> '', serif''], buttons = None\<rparr> ''fontFamily'' = Some '', serif'' \<and>
   getFontUrl \<lparr>props = [''fontFamily'' \<mapsto> '', serif''], buttons = None\<rparr> = None"
  by code_simp

section \<open>Claims about colours\<close>

text \<open>
  Claim C7. On both screens the style attribute that the renderer writes for a button is
  built from the layered colours. The list screen renders whenever the configuration has
  a list of buttons, and gives card \<open>i\<close> the colours of button \<open>i\<close> layered
  over \<open>pageButtonBackgroundColor\<close> and \<open>pageButtonTextColor\<close>. The detail
  screen of button \<open>i\<close> renders whenever the button has a link and the substitution
  into it returns, and layers the colours of the button over
  \<open>imageButtonBackgroundColor\<close> and \<open>imageButtonTextColor\<close>. Each surface
  colour falls back to the page-level \<open>buttonBackgroundColor\<close> and
  \<open>buttonTextColor\<close>. A colour the button gives itself is the layered colour
  whatever the surface and the page say; a button without one takes the surface colour,
  else the page colour. A layered colour that is there is written into the attribute as
  \<open>--btn-bg\<close> or \<open>--btn-text\<close>, and when neither is there no style attribute
  is written at all.
\<close>

theorem color_layering:
  assumes "buttons cfg = Some btns" "i < length btns"
  shows
   "(\<exists>v b'. renderButtonsPage page cfg qs b = (Normal (), b') \<and> app b' = ButtonsPage v \<and>
        length (cards v) = length btns \<and>
        card_style (cards v ! i) =
          buildStyleVars
            (layered ((btns ! i) ''backgroundColor'') (props cfg ''pageButtonBackgroundColor'') (props cfg ''buttonBackgroundColor''))
            (layered ((btns ! i) ''textColor'') (props cfg ''pageButtonTextColor'') (props cfg ''buttonTextColor''))) \<and>
    (\<forall>url link. (btns ! i) ''link'' = Some url \<and> finalLink b url qs = Normal link \<longrightarrow>
        (\<exists>v b'. renderImagePage page cfg (Finite i) qs b = (Normal (), b') \<and> app b' = ImagePage v \<and>
           href v = link \<and>
           vars_style v =
             buildStyleVars
               (layered ((btns ! i) ''backgroundColor'') (props cfg ''imageButtonBackgroundColor'') (props cfg ''buttonBackgroundColor''))
               (layered ((btns ! i) ''textColor'') (props cfg ''imageButtonTextColor'') (props cfg ''buttonTextColor'')))) \<and>
    (\<forall>b'. renderImagePage page cfg (Finite i) qs b = (Normal (), b') \<longrightarrow>
        (\<exists>v. app b' = ImagePage v \<and>
           vars_style v =
             buildStyleVars
               (layered ((btns ! i) ''backgroundColor'') (props cfg ''imageButtonBackgroundColor'') (props cfg ''buttonBackgroundColor''))
               (layered ((btns ! i) ''textColor'') (props cfg ''imageButtonTextColor'') (props cfg ''buttonTextColor'')))) \<and>
    (\<forall>c surface page_level. layered (Some c) surface page_level = Some c) \<and>
    (\<forall>surface page_level. layered None surface page_level = (if truthy surface then surface else page_level)) \<and>
    (\<forall>bg tx. buildStyleVars bg tx = [] \<longleftrightarrow> \<not> truthy bg \<and> \<not> truthy tx) \<and>
    (\<forall>bg tx. truthy bg \<longrightarrow> sublist (''--btn-bg: '' @ display bg) (buildStyleVars bg tx)) \<and>
    (\<forall>bg tx. truthy tx \<longrightarrow> sublist (''--btn-text: '' @ display tx) (buildStyleVars bg tx))"
proof -
  let ?S = "\<lambda>btn. buildStyleVars
              (layered (btn ''backgroundColor'') (props cfg ''pageButtonBackgroundColor'') (props cfg ''buttonBackgroundColor''))
              (layered (btn ''textColor'') (props cfg ''pageButtonTextColor'') (props cfg ''buttonTextColor''))"
  let ?D = "buildStyleVars
               (layered ((btns ! i) ''backgroundColor'') (props cfg ''imageButtonBackgroundColor'') (props cfg ''buttonBackgroundColor''))
               (layered ((btns ! i) ''textColor'') (props cfg ''imageButtonTextColor'') (props cfg ''buttonTextColor''))"
  from renderButtonsPage_cards [OF assms(1), of page qs b]
  obtain v b' where r: "renderButtonsPage page cfg qs b = (Normal (), b')" "app b' = ButtonsPage v"
    and styles: "map card_style (cards v) = map ?S btns"
    by (elim exE conjE)
  have "length (map card_style (cards v)) = length (map ?S btns)"
    by (simp only: styles)
  then have len: "length (cards v) = length btns"
    by (simp only: length_map)
  with assms(2) have "card_style (cards v ! i) = map card_style (cards v) ! i"
    by (simp only: nth_map)
  also have "\<dots> = ?S (btns ! i)"
    using assms(2) by (simp only: styles nth_map)
  finally have style: "card_style (cards v ! i) = ?S (btns ! i)" .
  have c1: "\<exists>v b'. renderButtonsPage page cfg qs b = (Normal (), b') \<and> app b' = ButtonsPage v \<and>
        length (cards v) = length btns \<and> card_style (cards v ! i) = ?S (btns ! i)"
    by (rule exI [of _ v], rule exI [of _ b']) (simp only: r len style simp_thms)
  have c2: "\<forall>url link. (btns ! i) ''link'' = Some url \<and> finalLink b url qs = Normal link \<longrightarrow>
        (\<exists>v b'. renderImagePage page cfg (Finite i) qs b = (Normal (), b') \<and> app b' = ImagePage v \<and>
           href v = link \<and> vars_style v = ?D)"
  proof (intro allI impI)
    fix url link
    assume "(btns ! i) ''link'' = Some url \<and> finalLink b url qs = Normal link"
    then have l: "(btns ! i) ''link'' = Some url" and f: "finalLink b url qs = Normal link"
      by blast+
    show "\<exists>v b'. renderImagePage page cfg (Finite i) qs b = (Normal (), b') \<and> app b' = ImagePage v \<and>
           href v = link \<and> vars_style v = ?D"
      by (rule renderImagePage_renders [OF assms l f])
  qed
  have c3: "\<forall>b'. renderImagePage page cfg (Finite i) qs b = (Normal (), b') \<longrightarrow>
        (\<exists>v. app b' = ImagePage v \<and> vars_style v = ?D)"
    using renderImagePage_style [OF assms] by (intro allI impI)
  have c4: "\<forall>c surface page_level. layered (Some c) surface page_level = Some c"
    by (simp add: layered_def)
  have c5: "\<forall>surface page_level. layered None surface page_level = (if truthy surface then surface else page_level)"
    by (simp add: layered_def)
  have c6: "\<forall>bg tx. buildStyleVars bg tx = [] \<longleftrightarrow> \<not> truthy bg \<and> \<not> truthy tx"
    by (intro allI) (rule buildStyleVars_empty)
  have c7: "\<forall>bg tx. truthy bg \<longrightarrow> sublist (''--btn-bg: '' @ display bg) (buildStyleVars bg tx)"
    by (intro allI impI) (rule buildStyleVars_background)
  have c8: "\<forall>bg tx. truthy tx \<longrightarrow> sublist (''--btn-text: '' @ display tx) (buildStyleVars bg tx)"
    by (intro allI impI) (rule buildStyleVars_text)
  show ?thesis
    by (rule conjI [OF c1 conjI [OF c2 conjI [OF c3 conjI [OF c4 conjI [OF c5 conjI [OF c6 conjI [OF c7 c8]]]]]]])
qed

theorem color_layering_witness:
  "(\<exists>v b'. renderButtonsPage ''demo''
       \<lparr>props = [''pageButtonBackgroundColor'' \<mapsto> ''blue'', ''imageButtonBackgroundColor'' \<mapsto> ''green'',
                 ''buttonTextColor'' \<mapsto> ''white''],
        buttons = Some [[''text'' \<mapsto> ''Play'', ''backgroundColor'' \<mapsto> ''red'', ''link'' \<mapsto> ''https://x.com''],
                        [''text'' \<mapsto> ''Stop'', ''link'' \<mapsto> ''https://y.com/{ref}'']]\<rparr>
       ''ref=abc''
       \<lparr>doc_title = [], meta_description = None, font_links = [], app = Blank,
        scroll_behavior = False, loc = \<lparr>pathname = ''/demo'', query = Some ''ref=abc''\<rparr>, redirect_path = None,
        regexp_engine = (\<lambda>url qs. None)\<rparr>
     = (Normal (), b') \<and> app b' = ButtonsPage v \<and>
     card_style (cards v ! 0) = '' style='' @ [CHR 0x22] @ ''--btn-bg: red; --btn-text: white'' @ [CHR 0x22]) \<and>
   (\<exists>v b'. renderImagePage ''demo''
       \<lparr>props = [''pageButtonBackgroundColor'' \<mapsto> ''blue'', ''imageButtonBackgroundColor'' \<mapsto> ''green'',
                 ''buttonTextColor'' \<mapsto> ''white''],
        buttons = Some [[''text'' \<mapsto> ''Play'', ''backgroundColor'' \<mapsto> ''red'', ''link'' \<mapsto> ''https://x.com''],
                        [''text'' \<mapsto> ''Stop'', ''link'' \<mapsto> ''https://y.com/{ref}'']]\<rparr>
       (Finite 1) ''ref=abc''
       \<lparr>doc_title = [], meta_description = None, font_links = [], app = Blank,
        scroll_behavior = False, loc = \<lparr>pathname = ''/demo'', query = Some ''ref=abc''\<rparr>, redirect_path = None,
        regexp_engine = (\<lambda>url qs. None)\<rparr>
     = (Normal (), b') \<and> app b' = ImagePage v \<and> href v = ''https://y.com/abc'' \<and>
     vars_style v = '' style='' @ [CHR 0x22] @ ''--btn-bg: green; --btn-text: white'' @ [CHR 0x22])"
proof -
  let ?btns = "[[''text'' \<mapsto> ''Play'', ''backgroundColor'' \<mapsto> ''red'', ''link'' \<mapsto> ''https://x.com''],
                [''text'' \<mapsto> ''Stop'', ''link'' \<mapsto> ''https://y.com/{ref}'']]"
  let ?cfg = "\<lparr>props = [''pageButtonBackgroundColor'' \<mapsto> ''blue'', ''imageButtonBackgroundColor'' \<mapsto> ''green'',
                 ''buttonTextColor'' \<mapsto> ''white''],
        buttons = Some ?btns\<rparr>"
  let ?b = "\<lparr>doc_title = [], meta_description = None, font_links = [], app = Blank,
        scroll_behavior = False, loc = \<lparr>pathname = ''/demo'', query = Some ''ref=abc''\<rparr>, redirect_path = None,
        regexp_engine = (\<lambda>url qs. None)\<rparr>"
  have h1: "buttons ?cfg = Some ?btns" by simp
  have h2: "0 < length ?btns" by simp
  have h3: "1 < length ?btns" by simp
  have list_style: "buildStyleVars
            (layered ((?btns ! 0) ''backgroundColor'') (props ?cfg ''pageButtonBackgroundColor'') (props ?cfg ''buttonBackgroundColor''))
            (layered ((?btns ! 0) ''textColor'') (props ?cfg ''pageButtonTextColor'') (props ?cfg ''buttonTextColor''))
        = '' style='' @ [CHR 0x22] @ ''--btn-bg: red; --btn-text: white'' @ [CHR 0x22]"
    by (simp add: layered_def truthy_def buildStyleVars_def when_truthy_def)
  have detail_style: "buildStyleVars
            (layered ((?btns ! 1) ''backgroundColor'') (props ?cfg ''imageButtonBackgroundColor'') (props ?cfg ''buttonBackgroundColor''))
            (layered ((?btns ! 1) ''textColor'') (props ?cfg ''imageButtonTextColor'') (props ?cfg ''buttonTextColor''))
        = '' style='' @ [CHR 0x22] @ ''--btn-bg: green; --btn-text: white'' @ [CHR 0x22]"
    by (simp add: layered_def truthy_def buildStyleVars_def when_truthy_def)
  have link: "(?btns ! 1) ''link'' = Some ''https://y.com/{ref}''" by simp
  have substituted: "replaceQueryPlaceholder ''https://y.com/{ref}'' ''ref=abc'' = Normal ''https://y.com/abc''"
    by code_simp
  have final: "finalLink ?b ''https://y.com/{ref}'' ''ref=abc'' = Normal ''https://y.com/abc''"
    by (simp only: finalLink_def substituted completion.case)
  from color_layering [OF h1 h2, of "''demo''" "''ref=abc''" ?b]
  obtain v b' where w1: "renderButtonsPage ''demo'' ?cfg ''ref=abc'' ?b = (Normal (), b')" "app b' = ButtonsPage v"
    "card_style (cards v ! 0) = buildStyleVars
            (layered ((?btns ! 0) ''backgroundColor'') (props ?cfg ''pageButtonBackgroundColor'') (props ?cfg ''buttonBackgroundColor''))
            (layered ((?btns ! 0) ''textColor'') (props ?cfg ''pageButtonTextColor'') (props ?cfg ''buttonTextColor''))"
    by (elim exE conjE)
  from color_layering [OF h1 h3, of "''demo''" "''ref=abc''" ?b] link final
  obtain v2 b2 where w2: "renderImagePage ''demo'' ?cfg (Finite 1) ''ref=abc'' ?b = (Normal (), b2)" "app b2 = ImagePage v2"
    "href v2 = ''https://y.com/abc''"
    "vars_style v2 = buildStyleVars
            (layered ((?btns ! 1) ''backgroundColor'') (props ?cfg ''imageButtonBackgroundColor'') (props ?cfg ''buttonBackgroundColor''))
            (layered ((?btns ! 1) ''textColor'') (props ?cfg ''imageButtonTextColor'') (props ?cfg ''buttonTextColor''))"
    by blast
  from w1 have p1: "\<exists>v b'. renderButtonsPage ''demo'' ?cfg ''ref=abc'' ?b = (Normal (), b') \<and> app b' = ButtonsPage v \<and>
     card_style (cards v ! 0) = '' style='' @ [CHR 0x22] @ ''--btn-bg: red; --btn-text: white'' @ [CHR 0x22]"
    unfolding list_style by (intro exI conjI)
  from w2 have p2: "\<exists>v b'. renderImagePage ''demo'' ?cfg (Finite 1) ''ref=abc'' ?b = (Normal (), b') \<and> app b' = ImagePage v \<and>
     href v = ''https://y.com/abc'' \<and>
     vars_style v = '' style='' @ [CHR 0x22] @ ''--btn-bg: green; --btn-text: white'' @ [CHR 0x22]"
    unfolding detail_style by (intro exI conjI)
  show ?thesis by (rule conjI [OF p1 p2])
qed

section \<open>Claims about the screens and init\<close>

lemma title_image_missing_nonempty: "title_image_missing \<noteq> []"
  by (simp add: title_image_missing_def)

lemma titles_differ: "title_image_missing \<noteq> title_page_missing"
  by (simp add: title_image_missing_def title_page_missing_def)

text \<open>
  Claim C3, as amended. The claim says that a configuration without \<open>buttons\<close>
  renders an empty list. \<open>renderButtonsPage\<close> calls \<open>config.buttons.map\<close>
  with nothing in front of it: for every configuration without \<open>buttons\<close> the
  list screen throws a TypeError before it writes anything into the app element, and
  \<open>init\<close>, which catches it, shows the page-not-found view that names the page.
\<close>

theorem buttons_absent_list_screen:
  assumes "buttons cfg = None"
  shows "fst (renderButtonsPage page cfg qs b) = Throw TypeError \<and>
         app (snd (renderButtonsPage page cfg qs b)) = app b \<and>
         (\<forall>resolve fetch b0 b1.
            handleRedirect resolve b0 = (Normal (), b1) \<and>
            parseURL (loc b1) = \<lparr>pagePath = Some page, imageIndex = None, queryString = qs\<rparr> \<and>
            fetch (basePath @ ''/'' @ page @ ''/config.json'') = Document cfg \<longrightarrow>
              fst (init resolve fetch b0) = Normal () \<and>
              app (snd (init resolve fetch b0)) =
                ErrorPage title_page_missing [Str page_not_found_prefix, Str page])"
proof -
  note faults = renderButtonsPage_no_buttons [OF assms]
  have c3: "\<forall>resolve fetch b0 b1.
            handleRedirect resolve b0 = (Normal (), b1) \<and>
            parseURL (loc b1) = \<lparr>pagePath = Some page, imageIndex = None, queryString = qs\<rparr> \<and>
            fetch (basePath @ ''/'' @ page @ ''/config.json'') = Document cfg \<longrightarrow>
              fst (init resolve fetch b0) = Normal () \<and>
              app (snd (init resolve fetch b0)) =
                ErrorPage title_page_missing [Str page_not_found_prefix, Str page]"
  proof (intro allI impI)
    fix resolve fetch b0 b1
    assume a: "handleRedirect resolve b0 = (Normal (), b1) \<and>
            parseURL (loc b1) = \<lparr>pagePath = Some page, imageIndex = None, queryString = qs\<rparr> \<and>
            fetch (basePath @ ''/'' @ page @ ''/config.json'') = Document cfg"
    then have h: "handleRedirect resolve b0 = (Normal (), b1)"
      and r: "parseURL (loc b1) = \<lparr>pagePath = Some page, imageIndex = None, queryString = qs\<rparr>"
      and f: "fetch (basePath @ ''/'' @ page @ ''/config.json'') = Document cfg"
      by blast+
    from r have p: "pagePath (parseURL (loc b1)) = Some page" by simp
    obtain b2 where l: "load_and_render fetch page (parseURL (loc b1)) b1 = (Throw TypeError, b2)"
      using load_and_render_document [of fetch page cfg "parseURL (loc b1)" b1] f faults(1) [of page qs b1]
      by (simp add: r) (metis prod.collapse)
    from init_recognised [OF h p, of fetch] l
    show "fst (init resolve fetch b0) = Normal () \<and>
              app (snd (init resolve fetch b0)) =
                ErrorPage title_page_missing [Str page_not_found_prefix, Str page]"
      by (simp add: renderError_app)
  qed
  show ?thesis
    by (rule conjI [OF faults(1) conjI [OF faults(2) c3]])
qed

theorem buttons_absent_list_screen_witness:
  "fst (renderButtonsPage ''demo'' \<lparr>props = [''title'' \<mapsto> ''Demo'', ''fontFamily'' \<mapsto> ''Inter''], buttons = None\<rparr> ''ref=abc''
     \<lparr>doc_title = ''Auto Index'', meta_description = None, font_links = [], app = Blank,
      scroll_behavior = False, loc = \<lparr>pathname = ''/demo'', query = Some ''ref=abc''\<rparr>, redirect_path = None,
      regexp_engine = (\<lambda>url qs. None)\<rparr>)
   = Throw TypeError"
proof -
  have "buttons \<lparr>props = [''title'' \<mapsto> ''Demo'', ''fontFamily'' \<mapsto> ''Inter''], buttons = None\<rparr> = None"
    by simp
  from buttons_absent_list_screen [OF this] show ?thesis by blast
qed

text \<open>
  The claim as stated fails for the configuration that has a title only: the list screen
  throws, and the page shows the error view.
\<close>

theorem buttons_absent_counterexample:
  "buttons \<lparr>props = [''title'' \<mapsto> ''Demo''], buttons = None\<rparr> = None \<and>
   fst (renderButtonsPage ''demo'' \<lparr>props = [''title'' \<mapsto> ''Demo''], buttons = None\<rparr> []
     \<lparr>doc_title = ''Auto Index'', meta_description = None, font_links = [], app = Blank,
      scroll_behavior = False, loc = \<lparr>pathname = ''/demo'', query = None\<rparr>, redirect_path = None,
      regexp_engine = (\<lambda>url qs. None)\<rparr>)
     = Throw TypeError \<and>
   app (snd (init (\<lambda>path. None) (\<lambda>url. Document \<lparr>props = [''title'' \<mapsto> ''Demo''], buttons = None\<rparr>)
     \<lparr>doc_title = ''Auto Index'', meta_description = None, font_links = [], app = Blank,
      scroll_behavior = False, loc = \<lparr>pathname = ''/demo'', query = None\<rparr>, redirect_path = None,
      regexp_engine = (\<lambda>url qs. None)\<rparr>))
     = ErrorPage title_page_missing [Str page_not_found_prefix, Str ''demo'']"
  by (simp add: renderButtonsPage_def init_def handleRedirect_def truthy_def parseURL_def match_path_def
      search_def Let_def load_and_render_def loadConfig_def display_def renderError_def updatePageMeta_def
      ensureFont_def getFontUrl_def or_string_def)

text \<open>
  Claim C4, as amended. The claim speaks of every configuration; the renderer reads
  \<open>config.buttons[imageIndex]\<close> with nothing in front of it and throws when
  there is no \<open>buttons\<close>. For every configuration with a list of buttons and
  every image index that has no entry in it (an integer beyond the list, or
  \<open>+\<infinity>\<close>), the detail renderer returns normally and what it leaves is the
  error view with the title of a missing image and a message that holds the index: the
  title, the description meta element and the app element change, nothing else does (no
  font link, no scroll handlers). Title and message differ from those of the two
  not-found views of \<open>init\<close>.
\<close>

theorem image_index_out_of_range:
  assumes "buttons cfg = Some btns" "\<forall>n. idx = Finite n \<longrightarrow> length btns \<le> n"
  shows "renderImagePage page cfg idx qs b =
           (Normal (),
            b\<lparr>doc_title := title_image_missing,
              meta_description :=
                map_option (\<lambda>_. [Str index_not_found_prefix, Num idx, Str index_not_found_suffix])
                  (meta_description b),
              app := ErrorPage title_image_missing
                       [Str index_not_found_prefix, Num idx, Str index_not_found_suffix]\<rparr>) \<and>
         Num idx \<in> set [Str index_not_found_prefix, Num idx, Str index_not_found_suffix] \<and>
         title_image_missing \<noteq> title_page_missing \<and>
         (\<forall>p. [Str index_not_found_prefix, Num idx, Str index_not_found_suffix]
                \<noteq> [Str page_not_found_prefix, Str p]) \<and>
         [Str index_not_found_prefix, Num idx, Str index_not_found_suffix] \<noteq> [Str title_page_missing]"
proof -
  from assms(2) have "lookup_button btns idx = None"
    by (cases idx) (simp_all add: lookup_button_def)
  with assms(1) have "renderImagePage page cfg idx qs b =
      (Normal (), renderError title_image_missing
         [Str index_not_found_prefix, Num idx, Str index_not_found_suffix] b)"
    by (simp add: renderImagePage_def)
  then show ?thesis
    by (simp add: renderError_eq title_image_missing_nonempty titles_differ)
qed

theorem image_index_out_of_range_witness:
  "renderImagePage ''demo''
     \<lparr>props = [''title'' \<mapsto> ''Demo''],
      buttons = Some [[''text'' \<mapsto> ''Play'', ''link'' \<mapsto> ''https://x.com''], [''text'' \<mapsto> ''Stop'', ''link'' \<mapsto> ''https://y.com'']]\<rparr>
     (Finite 9) []
     \<lparr>doc_title = ''Auto Index'', meta_description = Some [], font_links = [], app = Blank,
      scroll_behavior = False, loc = \<lparr>pathname = ''/demo/image/9'', query = None\<rparr>, redirect_path = None,
      regexp_engine = (\<lambda>url qs. None)\<rparr> =
   (Normal (),
    \<lparr>doc_title = title_image_missing,
     meta_description = Some [Str index_not_found_prefix, Num (Finite 9), Str index_not_found_suffix],
     font_links = [],
     app = ErrorPage title_image_missing [Str index_not_found_prefix, Num (Finite 9), Str index_not_found_suffix],
     scroll_behavior = False, loc = \<lparr>pathname = ''/demo/image/9'', query = None\<rparr>, redirect_path = None,
      regexp_engine = (\<lambda>url qs. None)\<rparr>)"
proof -
  let ?btns = "[[''text'' \<mapsto> ''Play'', ''link'' \<mapsto> ''https://x.com''], [''text'' \<mapsto> ''Stop'', ''link'' \<mapsto> ''https://y.com'']]"
  let ?cfg = "\<lparr>props = [''title'' \<mapsto> ''Demo''], buttons = Some ?btns\<rparr>"
  have h1: "buttons ?cfg = Some ?btns" by simp
  have h2: "\<forall>n. Finite 9 = Finite n \<longrightarrow> length ?btns \<le> n" by simp
  from image_index_out_of_range [OF h1 h2] show ?thesis by simp
qed

text \<open>
  The claim as stated fails for the configuration that has a title only: no index has an
  entry in its \<open>buttons\<close>, and the renderer throws.
\<close>

theorem image_index_without_buttons_counterexample:
  "buttons \<lparr>props = [''title'' \<mapsto> ''Demo''], buttons = None\<rparr> = None \<and>
   fst (renderImagePage ''demo'' \<lparr>props = [''title'' \<mapsto> ''Demo''], buttons = None\<rparr> (Finite 0) []
     \<lparr>doc_title = ''Auto Index'', meta_description = None, font_links = [], app = Blank,
      scroll_behavior = False, loc = \<lparr>pathname = ''/demo/image/0'', query = None\<rparr>, redirect_path = None,
      regexp_engine = (\<lambda>url qs. None)\<rparr>)
     = Throw TypeError"
  by (simp add: renderImagePage_def)

text \<open>
  Claim C10. \<open>init\<close> returns or throws, and the only exception it lets out is one
  of \<open>handleRedirect\<close>, which runs before the route is parsed: once
  \<open>handleRedirect\<close> has returned, \<open>init\<close> returns normally, whatever the
  location, the response and the configuration are, and whatever the browser's
  regular-expression engine makes of the parameter names. When the route names a page,
  loading and rendering returns or throws; if it returns, \<open>init\<close> leaves what it
  rendered, and whatever it throws, \<open>init\<close> leaves the page-not-found view that
  names the page. A failed request, a status that is not a success and a body that is
  not JSON throw there, and so does every fault of either renderer, the SyntaxError of a
  parameter name that is not a pattern among them.
\<close>

theorem init_catches_every_fault:
  "(\<forall>b1. handleRedirect resolve b = (Normal (), b1) \<longrightarrow> fst (init resolve fetch b) = Normal ()) \<and>
   (\<forall>e. fst (init resolve fetch b) = Throw e \<longrightarrow> fst (handleRedirect resolve b) = Throw e) \<and>
   fst (init resolve fetch b) \<noteq> Unmodelled \<and>
   (\<forall>p r b1. \<exists>b2. load_and_render fetch p r b1 = (Normal (), b2) \<or> (\<exists>e. load_and_render fetch p r b1 = (Throw e, b2))) \<and>
   (\<forall>b1 p e b2.
      handleRedirect resolve b = (Normal (), b1) \<and> pagePath (parseURL (loc b1)) = Some p \<and>
      load_and_render fetch p (parseURL (loc b1)) b1 = (Throw e, b2) \<longrightarrow>
        init resolve fetch b =
          (Normal (), renderError title_page_missing [Str page_not_found_prefix, Str p] b2) \<and>
        app (snd (init resolve fetch b)) = ErrorPage title_page_missing [Str page_not_found_prefix, Str p]) \<and>
   (\<forall>b1 p b2.
      handleRedirect resolve b = (Normal (), b1) \<and> pagePath (parseURL (loc b1)) = Some p \<and>
      load_and_render fetch p (parseURL (loc b1)) b1 = (Normal (), b2) \<longrightarrow>
        init resolve fetch b = (Normal (), b2)) \<and>
   (\<forall>p r b1. fetch (basePath @ ''/'' @ p @ ''/config.json'') \<in> {NetworkError, NotOk, Unparsable} \<longrightarrow>
      (\<exists>e. load_and_render fetch p r b1 = (Throw e, b1))) \<and>
   (\<forall>p r b1 cfg e b2.
      fetch (basePath @ ''/'' @ p @ ''/config.json'') = Document cfg \<and>
      (case imageIndex r of
         Some idx \<Rightarrow> renderImagePage p cfg idx (queryString r) b1
       | None \<Rightarrow> renderButtonsPage p cfg (queryString r) b1) = (Throw e, b2) \<longrightarrow>
        load_and_render fetch p r b1 = (Throw e, b2)) \<and>
   (\<forall>p cfg btns i url qs b1.
      buttons cfg = Some btns \<and> i < length btns \<and> (btns ! i) ''link'' = Some url \<and>
      replaceQueryPlaceholder url qs = Unmodelled \<and> regexp_engine b1 url qs = None \<longrightarrow>
        renderImagePage p cfg (Finite i) qs b1 = (Throw SyntaxError, b1))"
proof -
  have c0: "\<forall>b1. handleRedirect resolve b = (Normal (), b1) \<longrightarrow> fst (init resolve fetch b) = Normal ()"
    by (intro allI impI) (rule init_returns)
  have c1: "\<forall>e. fst (init resolve fetch b) = Throw e \<longrightarrow> fst (handleRedirect resolve b) = Throw e"
    by (intro allI impI) (rule init_throws)
  have c2: "fst (init resolve fetch b) \<noteq> Unmodelled"
    by (rule init_modelled)
  have c3: "\<forall>p r b1. \<exists>b2. load_and_render fetch p r b1 = (Normal (), b2) \<or> (\<exists>e. load_and_render fetch p r b1 = (Throw e, b2))"
  proof (intro allI)
    fix p r b1
    obtain c b2 where l: "load_and_render fetch p r b1 = (c, b2)" by (metis surj_pair)
    with load_and_render_modelled [of fetch p r b1] have "c \<noteq> Unmodelled" by simp
    with l show "\<exists>b2. load_and_render fetch p r b1 = (Normal (), b2) \<or> (\<exists>e. load_and_render fetch p r b1 = (Throw e, b2))"
      by (cases c) auto
  qed
  have c4: "\<forall>b1 p e b2.
      handleRedirect resolve b = (Normal (), b1) \<and> pagePath (parseURL (loc b1)) = Some p \<and>
      load_and_render fetch p (parseURL (loc b1)) b1 = (Throw e, b2) \<longrightarrow>
        init resolve fetch b =
          (Normal (), renderError title_page_missing [Str page_not_found_prefix, Str p] b2) \<and>
        app (snd (init resolve fetch b)) = ErrorPage title_page_missing [Str page_not_found_prefix, Str p]"
  proof (intro allI impI)
    fix b1 p e b2
    assume a: "handleRedirect resolve b = (Normal (), b1) \<and> pagePath (parseURL (loc b1)) = Some p \<and>
      load_and_render fetch p (parseURL (loc b1)) b1 = (Throw e, b2)"
    then have h: "handleRedirect resolve b = (Normal (), b1)" and p: "pagePath (parseURL (loc b1)) = Some p"
      and l: "load_and_render fetch p (parseURL (loc b1)) b1 = (Throw e, b2)"
      by blast+
    have "init resolve fetch b =
          (Normal (), renderError title_page_missing [Str page_not_found_prefix, Str p] b2)"
      using init_recognised [OF h p, of fetch] l by simp
    then show "init resolve fetch b =
          (Normal (), renderError title_page_missing [Str page_not_found_prefix, Str p] b2) \<and>
        app (snd (init resolve fetch b)) = ErrorPage title_page_missing [Str page_not_found_prefix, Str p]"
      by (simp add: renderError_app)
  qed
  have c5: "\<forall>b1 p b2.
      handleRedirect resolve b = (Normal (), b1) \<and> pagePath (parseURL (loc b1)) = Some p \<and>
      load_and_render fetch p (parseURL (loc b1)) b1 = (Normal (), b2) \<longrightarrow>
        init resolve fetch b = (Normal (), b2)"
  proof (intro allI impI)
    fix b1 p b2
    assume a: "handleRedirect resolve b = (Normal (), b1) \<and> pagePath (parseURL (loc b1)) = Some p \<and>
      load_and_render fetch p (parseURL (loc b1)) b1 = (Normal (), b2)"
    then have h: "handleRedirect resolve b = (Normal (), b1)" and p: "pagePath (parseURL (loc b1)) = Some p"
      and l: "load_and_render fetch p (parseURL (loc b1)) b1 = (Normal (), b2)"
      by blast+
    show "init resolve fetch b = (Normal (), b2)"
      using init_recognised [OF h p, of fetch] l by simp
  qed
  have c6: "\<forall>p r b1. fetch (basePath @ ''/'' @ p @ ''/config.json'') \<in> {NetworkError, NotOk, Unparsable} \<longrightarrow>
      (\<exists>e. load_and_render fetch p r b1 = (Throw e, b1))"
    by (intro allI impI) (rule load_and_render_failed_load)
  have c7: "\<forall>p r b1 cfg e b2.
      fetch (basePath @ ''/'' @ p @ ''/config.json'') = Document cfg \<and>
      (case imageIndex r of
         Some idx \<Rightarrow> renderImagePage p cfg idx (queryString r) b1
       | None \<Rightarrow> renderButtonsPage p cfg (queryString r) b1) = (Throw e, b2) \<longrightarrow>
        load_and_render fetch p r b1 = (Throw e, b2)"
    by (intro allI impI) (simp add: load_and_render_document)
  have c8: "\<forall>p cfg btns i url qs b1.
      buttons cfg = Some btns \<and> i < length btns \<and> (btns ! i) ''link'' = Some url \<and>
      replaceQueryPlaceholder url qs = Unmodelled \<and> regexp_engine b1 url qs = None \<longrightarrow>
        renderImagePage p cfg (Finite i) qs b1 = (Throw SyntaxError, b1)"
  proof (intro allI impI)
    fix p qs url i btns and cfg :: config and b1 :: browser
    assume "buttons cfg = Some btns \<and> i < length btns \<and> (btns ! i) ''link'' = Some url \<and>
      replaceQueryPlaceholder url qs = Unmodelled \<and> regexp_engine b1 url qs = None"
    then have a: "buttons cfg = Some btns" "i < length btns" "(btns ! i) ''link'' = Some url"
      "replaceQueryPlaceholder url qs = Unmodelled" "regexp_engine b1 url qs = None"
      by blast+
    show "renderImagePage p cfg (Finite i) qs b1 = (Throw SyntaxError, b1)"
      by (rule renderImagePage_engine_rejects [OF a])
  qed
  show ?thesis
    by (rule conjI [OF c0 conjI [OF c1 conjI [OF c2 conjI [OF c3 conjI [OF c4 conjI [OF c5 conjI [OF c6 conjI [OF c7 c8]]]]]]]])
qed

text \<open>
  Two runs: a button without a link, where the renderer throws a TypeError, and the
  query string \<open>[=1\<close>, whose parameter name \<open>[\<close> makes the pattern
  \<open>\{[\}\<close>, an unterminated character class, in a browser whose engine rejects
  it. Both end in the page-not-found view.
\<close>

theorem init_catches_every_fault_witness:
  "init (\<lambda>path. None) (\<lambda>url. Document \<lparr>props = [''title'' \<mapsto> ''Demo''], buttons = Some [[''text'' \<mapsto> ''Play'']]\<rparr>)
     \<lparr>doc_title = ''Auto Index'', meta_description = None, font_links = [], app = Blank,
      scroll_behavior = False, loc = \<lparr>pathname = ''/demo/image/0'', query = None\<rparr>, redirect_path = None,
      regexp_engine = (\<lambda>url qs. None)\<rparr> =
   (Normal (),
    \<lparr>doc_title = title_page_missing, meta_description = None, font_links = [],
     app = ErrorPage title_page_missing [Str page_not_found_prefix, Str ''demo''],
     scroll_behavior = False, loc = \<lparr>pathname = ''/demo/image/0'', query = None\<rparr>, redirect_path = None,
     regexp_engine = (\<lambda>url qs. None)\<rparr>) \<and>
   init (\<lambda>path. None)
     (\<lambda>url. Document \<lparr>props = [''title'' \<mapsto> ''Demo''],
                            buttons = Some [[''text'' \<mapsto> ''Play'', ''link'' \<mapsto> ''https://x.com'']]\<rparr>)
     \<lparr>doc_title = ''Auto Index'', meta_description = None, font_links = [], app = Blank,
      scroll_behavior = False, loc = \<lparr>pathname = ''/demo/image/0'', query = Some ''[=1''\<rparr>, redirect_path = None,
      regexp_engine = (\<lambda>url qs. None)\<rparr> =
   (Normal (),
    \<lparr>doc_title = title_page_missing, meta_description = None, font_links = [],
     app = ErrorPage title_page_missing [Str page_not_found_prefix, Str ''demo''],
     scroll_behavior = False, loc = \<lparr>pathname = ''/demo/image/0'', query = Some ''[=1''\<rparr>, redirect_path = None,
     regexp_engine = (\<lambda>url qs. None)\<rparr>)"
proof -
  let ?cfg = "\<lparr>props = [''title'' \<mapsto> ''Demo''], buttons = Some [[''text'' \<mapsto> ''Play'']]\<rparr>"
  let ?fetch = "\<lambda>url :: string. Document ?cfg"
  let ?resolve = "\<lambda>path :: string. None :: location option"
  let ?b = "\<lparr>doc_title = ''Auto Index'', meta_description = None, font_links = [], app = Blank,
      scroll_behavior = False, loc = \<lparr>pathname = ''/demo/image/0'', query = None\<rparr>, redirect_path = None,
      regexp_engine = (\<lambda>url qs. None)\<rparr>"
  have h: "handleRedirect ?resolve ?b = (Normal (), ?b)"
    by (simp add: handleRedirect_def truthy_def)
  have r: "parseURL (loc ?b) = \<lparr>pagePath = Some ''demo'', imageIndex = Some (Finite 0), queryString = []\<rparr>"
    by (simp add: parseURL_def match_path_def search_def is_digit_def Let_def parseInt_def
        digits_value_def to_number_def round_to_double_def)
  have p: "pagePath (parseURL (loc ?b)) = Some ''demo''"
    unfolding r by simp
  have l: "load_and_render ?fetch ''demo'' (parseURL (loc ?b)) ?b = (Throw TypeError, ?b)"
    unfolding r by (simp add: load_and_render_def loadConfig_def renderImagePage_def lookup_button_def)
  note res = init_catches_every_fault [of ?resolve ?b ?fetch]
  note caught = conjunct1 [OF conjunct2 [OF conjunct2 [OF conjunct2 [OF conjunct2 [OF res]]]]]
  from caught [rule_format, OF conjI [OF h conjI [OF p l]]]
  have "init ?resolve ?fetch ?b =
          (Normal (), renderError title_page_missing [Str page_not_found_prefix, Str ''demo''] ?b)"
    by (rule conjunct1)
  then have first: "init ?resolve ?fetch ?b =
   (Normal (),
    \<lparr>doc_title = title_page_missing, meta_description = None, font_links = [],
     app = ErrorPage title_page_missing [Str page_not_found_prefix, Str ''demo''],
     scroll_behavior = False, loc = \<lparr>pathname = ''/demo/image/0'', query = None\<rparr>, redirect_path = None,
     regexp_engine = (\<lambda>url qs. None)\<rparr>)"
    by (simp add: renderError_eq title_page_missing_def)
  let ?btns' = "[[''text'' \<mapsto> ''Play'', ''link'' \<mapsto> ''https://x.com'']]"
  let ?cfg' = "\<lparr>props = [''title'' \<mapsto> ''Demo''], buttons = Some ?btns'\<rparr>"
  let ?fetch' = "\<lambda>url :: string. Document ?cfg'"
  let ?b' = "\<lparr>doc_title = ''Auto Index'', meta_description = None, font_links = [], app = Blank,
      scroll_behavior = False, loc = \<lparr>pathname = ''/demo/image/0'', query = Some ''[=1''\<rparr>, redirect_path = None,
      regexp_engine = (\<lambda>url qs. None)\<rparr>"
  have h': "handleRedirect ?resolve ?b' = (Normal (), ?b')"
    by (simp add: handleRedirect_def truthy_def)
  have r': "parseURL (loc ?b') = \<lparr>pagePath = Some ''demo'', imageIndex = Some (Finite 0), queryString = ''[=1''\<rparr>"
    by (simp add: parseURL_def match_path_def search_def is_digit_def Let_def parseInt_def
        digits_value_def to_number_def round_to_double_def)
  have p': "pagePath (parseURL (loc ?b')) = Some ''demo''"
    unfolding r' by simp
  have operators: "replaceQueryPlaceholder ''https://x.com'' ''[=1'' = Unmodelled"
    by code_simp
  note res' = init_catches_every_fault [of ?resolve ?b' ?fetch']
  note caught' = conjunct1 [OF conjunct2 [OF conjunct2 [OF conjunct2 [OF conjunct2 [OF res']]]]]
  note thrown = conjunct1 [OF conjunct2 [OF conjunct2 [OF conjunct2 [OF conjunct2 [OF conjunct2 [OF conjunct2 [OF conjunct2 [OF res']]]]]]]]
  note rejected = conjunct2 [OF conjunct2 [OF conjunct2 [OF conjunct2 [OF conjunct2 [OF conjunct2 [OF conjunct2 [OF conjunct2 [OF res']]]]]]]]
  have "buttons ?cfg' = Some ?btns' \<and> 0 < length ?btns' \<and> (?btns' ! 0) ''link'' = Some ''https://x.com'' \<and>
      replaceQueryPlaceholder ''https://x.com'' ''[=1'' = Unmodelled \<and> regexp_engine ?b' ''https://x.com'' ''[=1'' = None"
    using operators by simp
  from rejected [rule_format, OF this]
  have render: "renderImagePage ''demo'' ?cfg' (Finite 0) ''[=1'' ?b' = (Throw SyntaxError, ?b')" .
  have doc: "?fetch' (basePath @ ''/'' @ ''demo'' @ ''/config.json'') = Document ?cfg'" by simp
  have "(case imageIndex (parseURL (loc ?b')) of
         Some idx \<Rightarrow> renderImagePage ''demo'' ?cfg' idx (queryString (parseURL (loc ?b'))) ?b'
       | None \<Rightarrow> renderButtonsPage ''demo'' ?cfg' (queryString (parseURL (loc ?b'))) ?b') = (Throw SyntaxError, ?b')"
    unfolding r' using render by simp
  from thrown [rule_format, OF conjI [OF doc this]]
  have l': "load_and_render ?fetch' ''demo'' (parseURL (loc ?b')) ?b' = (Throw SyntaxError, ?b')" .
  from caught' [rule_format, OF conjI [OF h' conjI [OF p' l']]]
  have "init ?resolve ?fetch' ?b' =
          (Normal (), renderError title_page_missing [Str page_not_found_prefix, Str ''demo''] ?b')"
    by (rule conjunct1)
  then have second: "init ?resolve ?fetch' ?b' =
   (Normal (),
    \<lparr>doc_title = title_page_missing, meta_description = None, font_links = [],
     app = ErrorPage title_page_missing [Str page_not_found_prefix, Str ''demo''],
     scroll_behavior = False, loc = \<lparr>pathname = ''/demo/image/0'', query = Some ''[=1''\<rparr>, redirect_path = None,
     regexp_engine = (\<lambda>url qs. None)\<rparr>)"
    by (simp add: renderError_eq title_page_missing_def)
  show ?thesis by (rule conjI [OF first second])
qed

section \<open>Claims about the scroll handlers\<close>

lemma run_append: "run s (xs @ ys) = run (run s xs) ys"
  by (induction xs arbitrary: s) simp_all

lemma run_take_Suc: "k < length es \<Longrightarrow> run s (take (Suc k) es) = fire (es ! k) (run s (take k es))"
  by (simp add: take_Suc_conv_app_nth run_append)

lemma coalesced_setup: "coalesced (setupImageScrollBehavior floatBtn)"
  by (simp add: coalesced_def setupImageScrollBehavior_def)

lemma listening_fire: "listening (fire e s) = listening s"
proof (cases e)
  case (AnimationFrame d)
  have "listening ((updateState d ^^ n) s) = listening s" for n
    by (induction n) (simp_all add: updateState_def applyState_def)
  with AnimationFrame show ?thesis by simp
qed (simp_all add: onScroll_def updateState_def applyState_def)

lemma listening_run: "listening (run s es) = listening s"
  by (induction es arbitrary: s) (simp_all add: listening_fire)

lemma coalesced_fire:
  assumes "coalesced s" "case e of Timeout d \<Rightarrow> frame_callbacks s = 0 | _ \<Rightarrow> True"
  shows "coalesced (fire e s)"
proof (cases e)
  case Scroll
  with assms(1) show ?thesis by (auto simp: coalesced_def onScroll_def)
next
  case Resize
  with assms(1) show ?thesis by (auto simp: coalesced_def onScroll_def)
next
  case (AnimationFrame d)
  from assms(1) have "frame_callbacks s = 0 \<or> frame_callbacks s = Suc 0"
    by (auto simp: coalesced_def)
  with assms(1) AnimationFrame show ?thesis
    by (auto simp: coalesced_def updateState_def applyState_def)
next
  case (Timeout d)
  with assms show ?thesis by (auto simp: coalesced_def updateState_def applyState_def)
qed

lemma coalesced_prefix:
  "coalesced s \<Longrightarrow> timeouts_between_frames s es \<Longrightarrow>
   coalesced (run s (take k es)) \<and> timeouts_between_frames (run s (take k es)) (drop k es)"
proof (induction es arbitrary: s k)
  case Nil
  then show ?case by simp
next
  case (Cons e es)
  show ?case
  proof (cases k)
    case 0
    with Cons.prems show ?thesis by simp
  next
    case (Suc j)
    from Cons.prems have "coalesced (fire e s)" "timeouts_between_frames (fire e s) es"
      by (auto intro: coalesced_fire)
    from Cons.IH [OF this, of j] Suc show ?thesis by simp
  qed
qed

lemma timeout_guard:
  assumes "coalesced s" "timeouts_between_frames s es" "k < length es"
  shows "case es ! k of Timeout d \<Rightarrow> frame_callbacks (run s (take k es)) = 0 | _ \<Rightarrow> True"
proof -
  from coalesced_prefix [OF assms(1,2), of k]
  have "timeouts_between_frames (run s (take k es)) (drop k es)" by simp
  moreover have "drop k es = es ! k # drop (Suc k) es"
    using assms(3) by (simp add: Cons_nth_drop_Suc)
  ultimately show ?thesis by simp
qed

lemma no_second_request:
  assumes "e = Scroll \<or> e = Resize" "coalesced s" "frame_callbacks s = 1"
  shows "fire e s = s"
  using assms by (auto simp: coalesced_def onScroll_def)

lemma first_request:
  assumes "e = Scroll \<or> e = Resize" "coalesced s" "listening s" "frame_callbacks s = 0"
  shows "frame_callbacks (fire e s) = 1 \<and> ticking (fire e s)"
  using assms by (auto simp: coalesced_def onScroll_def)

lemma flag_cleared_by_frame:
  assumes "coalesced s" "case e of Timeout d \<Rightarrow> frame_callbacks s = 0 | _ \<Rightarrow> True"
    and "ticking s" "\<not> ticking (fire e s)"
  shows "(\<exists>d. e = AnimationFrame d) \<and> frame_callbacks (fire e s) = 0"
proof (cases e)
  case Scroll
  with assms show ?thesis by (simp add: onScroll_def split: if_splits)
next
  case Resize
  with assms show ?thesis by (simp add: onScroll_def split: if_splits)
next
  case (AnimationFrame d)
  then show ?thesis by simp
next
  case (Timeout d)
  with assms show ?thesis by (simp add: coalesced_def)
qed

lemma frame_runs_the_callback:
  assumes "coalesced s"
  shows "frame_callbacks (fire (AnimationFrame d) s) = 0 \<and> \<not> ticking (fire (AnimationFrame d) s)"
proof -
  from assms have "frame_callbacks s = 0 \<or> frame_callbacks s = Suc 0"
    by (auto simp: coalesced_def)
  with assms show ?thesis
    by (auto simp: coalesced_def updateState_def applyState_def)
qed

text \<open>
  In the calls of a list of tasks no timer callback runs while a callback waits for a
  frame: every update of the rendering ends with the frame callbacks, so no callback
  waits when a task begins.
\<close>

lemma raw_events_then:
  "timeouts_between_frames s (map handler raw @ es) = timeouts_between_frames (run s (map handler raw)) es"
proof (induction raw arbitrary: s)
  case Nil
  show ?case by simp
next
  case (Cons r raw)
  then show ?case by (cases r) simp_all
qed

lemma frame_callbacks_timer: "frame_callbacks (fire (Timeout d) s) = frame_callbacks s"
  by (simp add: updateState_def applyState_def)

lemma schedule_timeouts:
  "frame_callbacks s = 0 \<Longrightarrow> timeouts_between_frames s (schedule tasks)"
proof (induction tasks arbitrary: s rule: schedule.induct)
  case 1
  show ?case by simp
next
  case (2 d tasks)
  from "2.prems" have "frame_callbacks (fire (Timeout d) s) = 0"
    by (simp only: frame_callbacks_timer)
  from "2.IH" [OF this] "2.prems" show ?case by simp
next
  case (3 raw d tasks)
  have "frame_callbacks (fire (AnimationFrame d) (run s (map handler raw))) = 0" by simp
  from "3.IH" [OF this] show ?case
    by (simp add: raw_events_then)
qed

text \<open>
  The order of the event loop matters here. \<open>updateState\<close> clears the flag whoever
  calls it: were the timer callback to run between a scroll event and the frame
  callbacks, a second scroll event would request a second callback. No list of tasks
  makes these calls in this order.
\<close>

lemma handler_raw: "handler r \<noteq> Timeout d" "handler r \<noteq> AnimationFrame d"
  by (cases r; simp)+

lemma timer_between_event_and_frame:
  "run (setupImageScrollBehavior True) [Scroll, Timeout 100, Scroll] =
     \<lparr>listening = True, ticking = True, frame_callbacks = 2, is_ready = False\<rparr>"
  "schedule tasks \<noteq> [Scroll, Timeout 100, Scroll]"
proof -
  show "run (setupImageScrollBehavior True) [Scroll, Timeout 100, Scroll] =
     \<lparr>listening = True, ticking = True, frame_callbacks = 2, is_ready = False\<rparr>"
    by (simp add: setupImageScrollBehavior_def onScroll_def updateState_def applyState_def threshold_def)
  show "schedule tasks \<noteq> [Scroll, Timeout 100, Scroll]"
  proof (cases tasks rule: schedule.cases)
    case (3 raw d rest)
    show ?thesis
    proof (cases raw)
      case Nil
      with 3 show ?thesis by simp
    next
      case (Cons r raw')
      with 3 show ?thesis by (cases raw') (simp_all add: handler_raw)
    qed
  qed simp_all
qed

text \<open>
  Claim C9. Whatever the tasks of the event loop are, and however many raw scroll and
  resize events an update of the rendering fires: after every call at most one
  \<open>updateState\<close> waits for the next animation frame, and the flag is set exactly when
  one does; a scroll or resize event that finds one waiting requests nothing and changes
  nothing, and one that finds none waiting requests exactly one; the flag goes from set
  to clear only when the frame callbacks run, which leaves none waiting; and the frame
  callbacks always leave none waiting and the flag clear. The timer of the first check
  also calls \<open>updateState\<close>, which clears the flag; it is a task of its own and finds
  no callback waiting.
\<close>

theorem coalesced_recomputation:
  "(\<forall>k \<le> length (schedule tasks).
      frame_callbacks (run (setupImageScrollBehavior floatBtn) (take k (schedule tasks))) \<le> 1 \<and>
      (ticking (run (setupImageScrollBehavior floatBtn) (take k (schedule tasks))) \<longleftrightarrow>
       frame_callbacks (run (setupImageScrollBehavior floatBtn) (take k (schedule tasks))) = 1)) \<and>
   (\<forall>k < length (schedule tasks).
      (schedule tasks ! k = Scroll \<or> schedule tasks ! k = Resize) \<and>
      frame_callbacks (run (setupImageScrollBehavior floatBtn) (take k (schedule tasks))) = 1 \<longrightarrow>
        run (setupImageScrollBehavior floatBtn) (take (Suc k) (schedule tasks)) =
        run (setupImageScrollBehavior floatBtn) (take k (schedule tasks))) \<and>
   (\<forall>k < length (schedule tasks).
      (schedule tasks ! k = Scroll \<or> schedule tasks ! k = Resize) \<and> floatBtn \<and>
      frame_callbacks (run (setupImageScrollBehavior floatBtn) (take k (schedule tasks))) = 0 \<longrightarrow>
        frame_callbacks (run (setupImageScrollBehavior floatBtn) (take (Suc k) (schedule tasks))) = 1 \<and>
        ticking (run (setupImageScrollBehavior floatBtn) (take (Suc k) (schedule tasks)))) \<and>
   (\<forall>k < length (schedule tasks).
      ticking (run (setupImageScrollBehavior floatBtn) (take k (schedule tasks))) \<and>
      \<not> ticking (run (setupImageScrollBehavior floatBtn) (take (Suc k) (schedule tasks))) \<longrightarrow>
        (\<exists>d. schedule tasks ! k = AnimationFrame d) \<and>
        frame_callbacks (run (setupImageScrollBehavior floatBtn) (take (Suc k) (schedule tasks))) = 0) \<and>
   (\<forall>k < length (schedule tasks).
      (\<exists>d. schedule tasks ! k = AnimationFrame d) \<longrightarrow>
        frame_callbacks (run (setupImageScrollBehavior floatBtn) (take (Suc k) (schedule tasks))) = 0 \<and>
        \<not> ticking (run (setupImageScrollBehavior floatBtn) (take (Suc k) (schedule tasks))))"
proof -
  let ?es = "schedule tasks"
  let ?at = "\<lambda>k. run (setupImageScrollBehavior floatBtn) (take k ?es)"
  have timers: "timeouts_between_frames (setupImageScrollBehavior floatBtn) ?es"
    by (rule schedule_timeouts) (simp add: setupImageScrollBehavior_def)
  have inv: "coalesced (?at k)" for k
    using coalesced_prefix [OF coalesced_setup timers, of k] by simp
  have guard: "case ?es ! k of Timeout d \<Rightarrow> frame_callbacks (?at k) = 0 | _ \<Rightarrow> True" if "k < length ?es" for k
    using timeout_guard [OF coalesced_setup timers that] .
  have found: "listening (?at k) = floatBtn" for k
    by (simp add: listening_run setupImageScrollBehavior_def)
  have c1: "\<forall>k \<le> length ?es. frame_callbacks (?at k) \<le> 1 \<and> (ticking (?at k) \<longleftrightarrow> frame_callbacks (?at k) = 1)"
    using inv by (simp add: coalesced_def)
  have c2: "\<forall>k < length ?es. (?es ! k = Scroll \<or> ?es ! k = Resize) \<and> frame_callbacks (?at k) = 1 \<longrightarrow>
              ?at (Suc k) = ?at k"
  proof (intro allI impI)
    fix k
    assume k: "k < length ?es" and a: "(?es ! k = Scroll \<or> ?es ! k = Resize) \<and> frame_callbacks (?at k) = 1"
    from a have "fire (?es ! k) (?at k) = ?at k"
      using no_second_request [OF _ inv [of k]] by blast
    then show "?at (Suc k) = ?at k" unfolding run_take_Suc [OF k] .
  qed
  have c3: "\<forall>k < length ?es. (?es ! k = Scroll \<or> ?es ! k = Resize) \<and> floatBtn \<and> frame_callbacks (?at k) = 0 \<longrightarrow>
              frame_callbacks (?at (Suc k)) = 1 \<and> ticking (?at (Suc k))"
  proof (intro allI impI)
    fix k
    assume k: "k < length ?es"
      and a: "(?es ! k = Scroll \<or> ?es ! k = Resize) \<and> floatBtn \<and> frame_callbacks (?at k) = 0"
    from a have e: "?es ! k = Scroll \<or> ?es ! k = Resize" and f: "floatBtn" and z: "frame_callbacks (?at k) = 0"
      by blast+
    from f have l: "listening (?at k)" by (simp add: listening_run setupImageScrollBehavior_def)
    from first_request [OF e inv [of k] l z]
    show "frame_callbacks (?at (Suc k)) = 1 \<and> ticking (?at (Suc k))"
      unfolding run_take_Suc [OF k] .
  qed
  have c4: "\<forall>k < length ?es. ticking (?at k) \<and> \<not> ticking (?at (Suc k)) \<longrightarrow>
              (\<exists>d. ?es ! k = AnimationFrame d) \<and> frame_callbacks (?at (Suc k)) = 0"
  proof (intro allI impI)
    fix k
    assume k: "k < length ?es" and a: "ticking (?at k) \<and> \<not> ticking (?at (Suc k))"
    from a have t1: "ticking (?at k)" and t2: "\<not> ticking (?at (Suc k))"
      by blast+
    from t2 have t3: "\<not> ticking (fire (?es ! k) (?at k))"
      unfolding run_take_Suc [OF k] .
    from flag_cleared_by_frame [OF inv [of k] guard [OF k] t1 t3]
    show "(\<exists>d. ?es ! k = AnimationFrame d) \<and> frame_callbacks (?at (Suc k)) = 0"
      unfolding run_take_Suc [OF k] .
  qed
  have c5: "\<forall>k < length ?es. (\<exists>d. ?es ! k = AnimationFrame d) \<longrightarrow>
              frame_callbacks (?at (Suc k)) = 0 \<and> \<not> ticking (?at (Suc k))"
  proof (intro allI impI)
    fix k
    assume k: "k < length ?es" and a: "\<exists>d. ?es ! k = AnimationFrame d"
    then obtain d where d: "?es ! k = AnimationFrame d" by blast
    from frame_runs_the_callback [OF inv [of k], of d]
    show "frame_callbacks (?at (Suc k)) = 0 \<and> \<not> ticking (?at (Suc k))"
      unfolding run_take_Suc [OF k] d .
  qed
  show ?thesis
    by (rule conjI [OF c1 conjI [OF c2 conjI [OF c3 conjI [OF c4 c5]]]])
qed

theorem coalesced_recomputation_witness:
  "schedule [UpdateTheRendering [ResizeEvent, ScrollEvent, ScrollEvent] 10, TimerTask 100,
             UpdateTheRendering [ScrollEvent] 500] =
     [Resize, Scroll, Scroll, AnimationFrame 10, Timeout 100, Scroll, AnimationFrame 500] \<and>
   frame_callbacks (run (setupImageScrollBehavior True)
     (take 3 [Resize, Scroll, Scroll, AnimationFrame 10, Timeout 100, Scroll, AnimationFrame 500])) \<le> 1 \<and>
   run (setupImageScrollBehavior True)
     (take (Suc 1) [Resize, Scroll, Scroll, AnimationFrame 10, Timeout 100, Scroll, AnimationFrame 500]) =
   run (setupImageScrollBehavior True)
     (take 1 [Resize, Scroll, Scroll, AnimationFrame 10, Timeout 100, Scroll, AnimationFrame 500]) \<and>
   frame_callbacks (run (setupImageScrollBehavior True)
     (take (Suc 0) [Resize, Scroll, Scroll, AnimationFrame 10, Timeout 100, Scroll, AnimationFrame 500])) = 1 \<and>
   frame_callbacks (run (setupImageScrollBehavior True)
     (take (Suc 3) [Resize, Scroll, Scroll, AnimationFrame 10, Timeout 100, Scroll, AnimationFrame 500])) = 0"
proof -
  let ?tasks = "[UpdateTheRendering [ResizeEvent, ScrollEvent, ScrollEvent] 10, TimerTask 100,
                 UpdateTheRendering [ScrollEvent] 500]"
  let ?es = "[Resize, Scroll, Scroll, AnimationFrame 10, Timeout 100, Scroll, AnimationFrame 500]"
  have es: "schedule ?tasks = ?es" by simp
  note res = coalesced_recomputation [of ?tasks True, unfolded es]
  note c1 = conjunct1 [OF res]
  note c2 = conjunct1 [OF conjunct2 [OF res]]
  note c3 = conjunct1 [OF conjunct2 [OF conjunct2 [OF res]]]
  note c5 = conjunct2 [OF conjunct2 [OF conjunct2 [OF conjunct2 [OF res]]]]
  have "3 \<le> length ?es" by simp
  from c1 [rule_format, OF this]
  have w1: "frame_callbacks (run (setupImageScrollBehavior True) (take 3 ?es)) \<le> 1"
    by (rule conjunct1)
  have "1 < length ?es" by simp
  moreover have "(?es ! 1 = Scroll \<or> ?es ! 1 = Resize) \<and>
      frame_callbacks (run (setupImageScrollBehavior True) (take 1 ?es)) = 1"
    by (simp add: setupImageScrollBehavior_def onScroll_def)
  ultimately
  have w2: "run (setupImageScrollBehavior True) (take (Suc 1) ?es) = run (setupImageScrollBehavior True) (take 1 ?es)"
    by (rule c2 [rule_format])
  have "0 < length ?es" by simp
  moreover have "(?es ! 0 = Scroll \<or> ?es ! 0 = Resize) \<and> True \<and>
      frame_callbacks (run (setupImageScrollBehavior True) (take 0 ?es)) = 0"
    by (simp add: setupImageScrollBehavior_def)
  ultimately
  have "frame_callbacks (run (setupImageScrollBehavior True) (take (Suc 0) ?es)) = 1 \<and>
      ticking (run (setupImageScrollBehavior True) (take (Suc 0) ?es))"
    by (rule c3 [rule_format])
  then have w3: "frame_callbacks (run (setupImageScrollBehavior True) (take (Suc 0) ?es)) = 1"
    by (rule conjunct1)
  have "3 < length ?es" by simp
  moreover have "\<exists>d. ?es ! 3 = AnimationFrame d" by simp
  ultimately
  have "frame_callbacks (run (setupImageScrollBehavior True) (take (Suc 3) ?es)) = 0 \<and>
      \<not> ticking (run (setupImageScrollBehavior True) (take (Suc 3) ?es))"
    by (rule c5 [rule_format])
  then have w4: "frame_callbacks (run (setupImageScrollBehavior True) (take (Suc 3) ?es)) = 0"
    by (rule conjunct1)
  show ?thesis
    by (rule conjI [OF es conjI [OF w1 conjI [OF w2 conjI [OF w3 w4]]]])
qed

end
